theory Spec2Isabelle
  imports Complex_Main "HOL-Library.AList" "HOL-Library.Log_Nat"
begin

section \<open>The in-memory data source of the quiz application\<close>

text \<open>
  This theory embeds \<^verbatim>\<open>quiz-app/src/data/inMemory.ts\<close> and the helpers of
  \<^verbatim>\<open>quiz-app/src/data/types.ts\<close> it uses.

  Conventions of the embedding:
  \<^item> a JavaScript \<^verbatim>\<open>number\<close> is the rational (\<open>rat\<close>) it denotes; \<^verbatim>\<open>NaN\<close> and the
    infinities are not represented, and \<^verbatim>\<open>-0\<close> is \<^verbatim>\<open>0\<close>. The division, subtraction and
    multiplication of \<^verbatim>\<open>calculatePoints\<close> round their results to the nearest double
    (\<open>fl\<close>: 53 significant bits, a tie going to the even significand). The exponent
    is not bounded: with a positive time limit this gives the score of the code for
    all finite doubles, since an overflow of the quotient and an underflow do not
    reach the rounded score. The sum \<^verbatim>\<open>score += points\<close> is exact, as it is in doubles
    for the integral points of the spec;
  \<^item> a JavaScript string is a \<open>string\<close> of ASCII characters;
  \<^item> a value of type \<^verbatim>\<open>unknown\<close> is a \<open>jsval\<close>;
  \<^item> an object used as a dictionary (\<^verbatim>\<open>Record<string, T>\<close>) is an association list of
    its own properties in insertion order, written with \<open>AList.update\<close> (an existing
    key keeps its place, a new key goes to the end). The reads \<^verbatim>\<open>db.quizzes[quizId]\<close>
    of \<^verbatim>\<open>createRoom\<close>, \<^verbatim>\<open>db.rooms[roomId]\<close> of \<^verbatim>\<open>startQuiz\<close>, \<^verbatim>\<open>goToNextQuestion\<close>,
    \<^verbatim>\<open>finishQuiz\<close> and \<^verbatim>\<open>submitAnswer\<close>, and \<^verbatim>\<open>room.answers[questionId]\<close> find an own
    property or a property inherited from \<^verbatim>\<open>Object.prototype\<close> (\<open>js_prop\<close>). The
    identifiers made by \<^verbatim>\<open>generateId\<close> are never names of inherited properties, and
    the tables hold no function: what an operation writes on an inherited object is
    not part of the database, and \<^verbatim>\<open>Object.prototype\<close> is the standard one (the names
    that a write of this program can add to it are listed in \<open>reserved_keys\<close>). \<^verbatim>\<open>getRoom\<close>, \<^verbatim>\<open>onRoomUpdate\<close> and \<^verbatim>\<open>notify\<close> are modelled
    for room ids that are not such names, and a snapshot holds the stored quiz of
    the room or none (\<^verbatim>\<open>structuredClone\<close> copies the values of the model as they are;
    it refuses a function, which only a room made by \<^verbatim>\<open>createRoom\<close> from an inherited
    property has for a quiz);
  \<^item> \<^verbatim>\<open>throw new Error(..)\<close> is the result \<open>Inl\<close> of an \<open>Error\<close>; every throw of the
    source precedes the first mutation of its operation, so a failed operation
    leaves the database as it was;
  \<^item> \<^verbatim>\<open>generateId\<close>, \<^verbatim>\<open>generateRoomCode\<close> and \<^verbatim>\<open>Date.now\<close> read the clock and the
    random generator; their results are parameters of the operations;
  \<^item> a listener callback is identified by a number; calling it is recorded by
    appending the pair (listener, snapshot) to the field \<open>delivered\<close>;
  \<^item> each operation of the data source runs to completion before the next one
    starts (only \<^verbatim>\<open>joinRoom\<close> awaits, and it reads the room again after its await);
  \<^item> the fields \<^verbatim>\<open>id\<close> are \<open>qid\<close>, \<open>quiz_id\<close>, \<open>pid\<close> and \<open>rid\<close>, a participant's
    \<^verbatim>\<open>name\<close> is \<open>pname\<close>, an answer's \<^verbatim>\<open>value\<close> is \<open>submitted\<close>, and a question's
    \<^verbatim>\<open>type\<close> with the fields of its variant is \<open>body\<close>.
\<close>

subsection \<open>Values of type unknown\<close>

datatype jsval =
    JUndefined
  | JNull
  | JBool bool
  | JNum rat
  | JStr string
  | JObj "(string \<times> jsval) list"

text \<open>The JavaScript \<^verbatim>\<open>typeof\<close> operator.\<close>

fun typeof :: "jsval \<Rightarrow> string" where
  "typeof JUndefined = ''undefined''"
| "typeof JNull = ''object''"
| "typeof (JBool b) = ''boolean''"
| "typeof (JNum n) = ''number''"
| "typeof (JStr s) = ''string''"
| "typeof (JObj ps) = ''object''"

text \<open>\<^verbatim>\<open>!value\<close>: the falsy values.\<close>

fun falsy :: "jsval \<Rightarrow> bool" where
  "falsy JUndefined = True"
| "falsy JNull = True"
| "falsy (JBool b) = (\<not> b)"
| "falsy (JNum n) = (n = 0)"
| "falsy (JStr s) = (s = [])"
| "falsy (JObj ps) = False"

text \<open>\<^verbatim>\<open>mapping[k]\<close>: an own property, or \<^verbatim>\<open>undefined\<close>.\<close>

fun js_get :: "jsval \<Rightarrow> string \<Rightarrow> jsval" where
  "js_get (JObj ps) k = (case map_of ps k of Some v \<Rightarrow> v | None \<Rightarrow> JUndefined)"
| "js_get v k = JUndefined"

text \<open>\<^verbatim>\<open>a === b\<close>: primitives by value; two objects are never the same reference here.\<close>

fun strict_eq :: "jsval \<Rightarrow> jsval \<Rightarrow> bool" where
  "strict_eq (JObj ps) b = False"
| "strict_eq a (JObj qs) = False"
| "strict_eq a b = (a = b)"

subsection \<open>Reading a property of a plain object\<close>

text \<open>The names of the properties that every plain object inherits from \<^verbatim>\<open>Object.prototype\<close>.\<close>

definition proto_keys :: "string list" where
  "proto_keys =
     [''constructor'', ''toString'', ''toLocaleString'', ''valueOf'', ''hasOwnProperty'',
      ''isPrototypeOf'', ''propertyIsEnumerable'', ''__proto__'', ''__defineGetter__'',
      ''__defineSetter__'', ''__lookupGetter__'', ''__lookupSetter__'']"

text \<open>
  \<^verbatim>\<open>obj[key]\<close>: the own property if there is one, otherwise the inherited function (or,
  for \<^verbatim>\<open>__proto__\<close>, the prototype itself), which is truthy, otherwise \<^verbatim>\<open>undefined\<close>.
\<close>

datatype 'a slot = Own 'a | Inherited | Missing

definition js_prop :: "(string \<times> 'a) list \<Rightarrow> string \<Rightarrow> 'a slot" where
  "js_prop obj k =
     (case map_of obj k of
        Some v \<Rightarrow> Own v
      | None \<Rightarrow> if k \<in> set proto_keys then Inherited else Missing)"


subsection \<open>Questions and quizzes (types.ts)\<close>

datatype QuestionBody =
    MCQ (options: "string list") (correctIndex: rat)
  | Drag (items: "(string \<times> string) list") (targets: "(string \<times> string) list")
         (correctMapping: "(string \<times> string) list")
  | Fill (expectedAnswer: string)

record Question =
  qid :: string
  prompt :: string
  points :: "rat option"
  timeLimitSec :: "rat option"
  body :: QuestionBody

record Quiz =
  quiz_id :: string
  title :: string
  questions :: "Question list"
  quiz_createdAt :: nat

subsection \<open>Grading (isAnswerCorrect)\<close>

definition is_space :: "char \<Rightarrow> bool" where
  "is_space c = (c \<in> set [CHR 0x20, CHR 0x09, CHR 0x0A, CHR 0x0B, CHR 0x0C, CHR 0x0D])"

definition trim :: "string \<Rightarrow> string" where
  "trim s = rev (dropWhile is_space (rev (dropWhile is_space s)))"

definition lower_char :: "char \<Rightarrow> char" where
  "lower_char c =
     (let n = (of_char c :: nat) in if 65 \<le> n \<and> n \<le> 90 then char_of (n + 32) else c)"

definition toLowerCase :: "string \<Rightarrow> string" where
  "toLowerCase s = map lower_char s"

definition normalizeString :: "string \<Rightarrow> string" where
  "normalizeString v = toLowerCase (trim v)"

definition isAnswerCorrect :: "Question \<Rightarrow> jsval \<Rightarrow> bool" where
  "isAnswerCorrect question v =
     (case body question of
        MCQ opts ci \<Rightarrow> strict_eq v (JNum ci)
      | Fill expected \<Rightarrow>
          (if typeof v \<noteq> ''string'' then False
           else (case v of
                   JStr s \<Rightarrow> normalizeString s = normalizeString expected
                 | _ \<Rightarrow> False))
      | Drag its tgs expected \<Rightarrow>
          (if falsy v \<or> typeof v \<noteq> ''object'' then False
           else list_all
                  (\<lambda>k. case map_of expected k of
                          Some t \<Rightarrow> strict_eq (js_get v k) (JStr t)
                        | None \<Rightarrow> strict_eq (js_get v k) JUndefined)
                  (remdups (map fst expected))))"

subsection \<open>Scoring (calculatePoints)\<close>

text \<open>\<^verbatim>\<open>Math.round\<close>: the nearest integer, a tie going up.\<close>

definition Math_round :: "rat \<Rightarrow> rat" where
  "Math_round x = of_int \<lfloor>x + 1 / 2\<rfloor>"

text \<open>
  Rounding to the nearest double. For \<open>x > 0\<close>, \<open>ilog2 x\<close> is the exponent \<open>e\<close> with
  \<open>2 ^ e \<le> x < 2 ^ (e + 1)\<close>; the doubles of that binade are the multiples of
  \<open>2 ^ (e - 52)\<close>, and \<open>x\<close> goes to the nearest multiple, a tie to the even one.
\<close>

definition round_half_even :: "rat \<Rightarrow> int" where
  "round_half_even y =
     (let n = \<lfloor>y\<rfloor>; d = y - of_int n
      in if d < 1 / 2 then n else if 1 / 2 < d then n + 1 else if even n then n else n + 1)"

definition ilog2 :: "rat \<Rightarrow> int" where
  "ilog2 x = (if 1 \<le> x then bitlen \<lfloor>x\<rfloor> - 1 else - bitlen (\<lceil>1 / x\<rceil> - 1))"

definition fl :: "rat \<Rightarrow> rat" where
  "fl x =
     (if x = 0 then 0
      else let q = 2 powi (ilog2 \<bar>x\<bar> - 52)
           in sgn x * of_int (round_half_even (\<bar>x\<bar> / q)) * q)"

text \<open>The rationals that are doubles.\<close>

definition is_double :: "rat \<Rightarrow> bool" where
  "is_double x = (fl x = x)"

text \<open>\<^verbatim>\<open>question.points ?? 10\<close>\<close>

definition base_points :: "Question \<Rightarrow> rat" where
  "base_points question = (case points question of None \<Rightarrow> 10 | Some p \<Rightarrow> p)"

text \<open>
  \<^verbatim>\<open>!question.timeLimitSec\<close> holds for an absent limit and for the limit 0;
  \<^verbatim>\<open>timeTakenSec == null\<close> holds for an absent time. In
  \<^verbatim>\<open>Math.max(0.5, 1 - Math.max(0, timeTakenSec) / question.timeLimitSec)\<close> and in
  \<^verbatim>\<open>base * fraction\<close> the quotient, the difference and the product are rounded.
\<close>

definition calculatePoints :: "Question \<Rightarrow> bool \<Rightarrow> rat option \<Rightarrow> rat" where
  "calculatePoints question correct timeTaken =
     (if \<not> correct then 0
      else
        let base = base_points question in
        (case timeLimitSec question of
           None \<Rightarrow> base
         | Some limit \<Rightarrow>
             if limit = 0 then base
             else (case timeTaken of
                     None \<Rightarrow> base
                   | Some t \<Rightarrow>
                       let fraction = max (1 / 2) (fl (1 - fl (max 0 t / limit)))
                       in Math_round (fl (base * fraction)))))"

text \<open>
  The spec's formula \<open>round(base * max(0.5, 1 - max(0, timeTaken) / timeLimit))\<close> read
  over the exact numbers; used only to compare the spec's reading with the code.
\<close>

definition spec_points :: "rat \<Rightarrow> rat \<Rightarrow> rat \<Rightarrow> rat" where
  "spec_points base limit t = Math_round (base * max (1 / 2) (1 - max 0 t / limit))"

text \<open>
  The spec's "coerced to a string", for the values whose \<^verbatim>\<open>String(v)\<close> is a fixed
  word; used only to state the spec's reading of fill-in-blank grading.
\<close>

fun spec_String :: "jsval \<Rightarrow> string option" where
  "spec_String (JStr s) = Some s"
| "spec_String (JBool b) = Some (if b then ''true'' else ''false'')"
| "spec_String JNull = Some ''null''"
| "spec_String JUndefined = Some ''undefined''"
| "spec_String v = None"

definition spec_fill_correct :: "string \<Rightarrow> jsval \<Rightarrow> bool" where
  "spec_fill_correct expected v =
     (case spec_String v of
        Some s \<Rightarrow> normalizeString s = normalizeString expected
      | None \<Rightarrow> False)"

subsection \<open>Rooms and the database (types.ts, inMemory.ts)\<close>

record Participant =
  pid :: string
  pname :: string
  score :: rat
  answeredQuestionIds :: "string list"

datatype RoomStatus = lobby | running | finished

record SubmittedAnswer =
  questionId :: string
  participantId :: string
  submitted :: jsval
  isCorrect :: bool
  timeTakenSec :: "rat option"
  submittedAt :: nat
  pointsAwarded :: rat

record Room =
  rid :: string
  code :: string
  quizId :: string
  status :: RoomStatus
  currentQuestionIndex :: int
  participants :: "Participant list"
  answers :: "(string \<times> SubmittedAnswer list) list"
  createdAt :: nat

type_synonym RoomSnapshot = "Room \<times> Quiz option"

type_synonym Listener = nat

record InMemoryDb =
  quizzes :: "(string \<times> Quiz) list"
  rooms :: "(string \<times> Room) list"
  listeners :: "(string \<times> Listener list) list"
  delivered :: "(Listener \<times> RoomSnapshot) list"

definition db0 :: InMemoryDb where
  "db0 = \<lparr>quizzes = [], rooms = [], listeners = [], delivered = []\<rparr>"

datatype Error = Quiz_not_found | Room_not_found | Question_not_found | TypeError

text \<open>
  \<^verbatim>\<open>notify(roomId)\<close>: every listener of the room is called, in the order of the set,
  with a copy of the snapshot. \<^verbatim>\<open>db.quizzes[room.quizId]!\<close> is not checked by the
  source, so the snapshot holds an optional quiz.
\<close>

definition notify :: "string \<Rightarrow> InMemoryDb \<Rightarrow> InMemoryDb" where
  "notify roomId db =
     (case map_of (rooms db) roomId of
        None \<Rightarrow> db
      | Some room \<Rightarrow>
          let snap = (room, map_of (quizzes db) (quizId room)) in
          (case map_of (listeners db) roomId of
             None \<Rightarrow> db
           | Some ls \<Rightarrow> db\<lparr>delivered := delivered db @ map (\<lambda>cb. (cb, snap)) ls\<rparr>))"

text \<open>
  \<^verbatim>\<open>generateRoomCode\<close>: six draws of \<^verbatim>\<open>Math.random()\<close>, each selecting
  \<^verbatim>\<open>letters[Math.floor(r * letters.length)]\<close>. The draws are the argument.
\<close>

definition letters :: string where
  "letters = ''ABCDEFGHJKLMNPQRSTUVWXYZ23456789''"

definition generateRoomCode :: "rat list \<Rightarrow> string" where
  "generateRoomCode draws =
     map (\<lambda>r. letters ! nat \<lfloor>r * of_nat (length letters)\<rfloor>) (take 6 draws)"

definition createQuiz :: "InMemoryDb \<Rightarrow> string \<Rightarrow> Question list \<Rightarrow> string \<Rightarrow> nat
    \<Rightarrow> Quiz \<times> InMemoryDb" where
  "createQuiz db ttl qs newId now =
     (let quiz = \<lparr>quiz_id = newId, title = ttl, questions = qs, quiz_createdAt = now\<rparr>
      in (quiz, db\<lparr>quizzes := AList.update newId quiz (quizzes db)\<rparr>))"

text \<open>
  \<^verbatim>\<open>createRoom\<close>: the guard \<^verbatim>\<open>if (!quiz)\<close> tests \<^verbatim>\<open>db.quizzes[quizId]\<close>, so an id that
  names an inherited property passes it, and the room is created.
\<close>

definition createRoom :: "InMemoryDb \<Rightarrow> string \<Rightarrow> string \<Rightarrow> string \<Rightarrow> nat
    \<Rightarrow> Error + Room \<times> InMemoryDb" where
  "createRoom db quizIdArg newId newCode now =
     (case js_prop (quizzes db) quizIdArg of
        Missing \<Rightarrow> Inl Quiz_not_found
      | found \<Rightarrow>
          let room = \<lparr>rid = newId, code = newCode, quizId = quizIdArg, status = lobby,
                      currentQuestionIndex = - 1, participants = [], answers = [],
                      createdAt = now\<rparr>;
              db1 = db\<lparr>rooms := AList.update newId room (rooms db)\<rparr>;
              db2 = db1\<lparr>listeners := AList.update newId [] (listeners db1)\<rparr>
          in Inr (room, notify newId db2))"

definition getRoomByCode :: "InMemoryDb \<Rightarrow> string \<Rightarrow> RoomSnapshot option" where
  "getRoomByCode db c =
     (case find (\<lambda>r. code r = c) (map snd (rooms db)) of
        None \<Rightarrow> None
      | Some room \<Rightarrow> Some (room, map_of (quizzes db) (quizId room)))"


text \<open>
  \<^verbatim>\<open>joinRoom\<close>: the room is found by its code, then read again by its id
  (\<^verbatim>\<open>db.rooms[snap.room.id]!\<close>); pushing to an absent room is a TypeError.
\<close>

definition joinRoom :: "InMemoryDb \<Rightarrow> string \<Rightarrow> string \<Rightarrow> string
    \<Rightarrow> Error + (Room \<times> Quiz option \<times> Participant) \<times> InMemoryDb" where
  "joinRoom db c name newPid =
     (case getRoomByCode db c of
        None \<Rightarrow> Inl Room_not_found
      | Some snap \<Rightarrow>
          let participant = \<lparr>pid = newPid, pname = name, score = 0, answeredQuestionIds = []\<rparr>
          in (case map_of (rooms db) (rid (fst snap)) of
                None \<Rightarrow> Inl TypeError
              | Some room \<Rightarrow>
                  let room' = room\<lparr>participants := participants room @ [participant]\<rparr>;
                      db1 = db\<lparr>rooms := AList.update (rid (fst snap)) room' (rooms db)\<rparr>;
                      db2 = notify (rid room') db1
                  in Inr ((room', snd snap, participant), db2)))"

text \<open>
  \<^verbatim>\<open>startQuiz\<close>, \<^verbatim>\<open>goToNextQuestion\<close>, \<^verbatim>\<open>finishQuiz\<close> and \<^verbatim>\<open>submitAnswer\<close> read
  \<^verbatim>\<open>db.rooms[roomId]\<close> and throw "Room not found" when it is falsy. An inherited
  property is truthy: the call goes on with the inherited object as the room. Its
  \<^verbatim>\<open>quizId\<close> is \<^verbatim>\<open>undefined\<close> and no quiz is stored under that word, so
  \<^verbatim>\<open>goToNextQuestion\<close> and \<^verbatim>\<open>submitAnswer\<close> end in a TypeError at \<^verbatim>\<open>quiz.questions\<close>;
  \<^verbatim>\<open>startQuiz\<close> and \<^verbatim>\<open>finishQuiz\<close> write the status on the inherited object and end in
  a TypeError in \<^verbatim>\<open>notify\<close>, at \<^verbatim>\<open>listeners.forEach\<close> (no set of listeners is stored
  under such an id). The database is as it was.
\<close>

definition startQuiz :: "InMemoryDb \<Rightarrow> string \<Rightarrow> Error + InMemoryDb" where
  "startQuiz db roomId =
     (case js_prop (rooms db) roomId of
        Missing \<Rightarrow> Inl Room_not_found
      | Inherited \<Rightarrow> Inl TypeError
      | Own room \<Rightarrow>
          let room' = room\<lparr>status := running, currentQuestionIndex := 0\<rparr>
          in Inr (notify roomId (db\<lparr>rooms := AList.update roomId room' (rooms db)\<rparr>)))"

text \<open>
  \<^verbatim>\<open>db.quizzes[room.quizId]!\<close> is not checked: without a stored quiz (nothing, or an
  inherited property, under the id) \<^verbatim>\<open>quiz.questions.length\<close> is a TypeError.
\<close>

definition goToNextQuestion :: "InMemoryDb \<Rightarrow> string \<Rightarrow> Error + InMemoryDb" where
  "goToNextQuestion db roomId =
     (case js_prop (rooms db) roomId of
        Missing \<Rightarrow> Inl Room_not_found
      | Inherited \<Rightarrow> Inl TypeError
      | Own room \<Rightarrow>
          (case map_of (quizzes db) (quizId room) of
             None \<Rightarrow> Inl TypeError
           | Some quiz \<Rightarrow>
               let room' =
                     (if currentQuestionIndex room < int (length (questions quiz)) - 1
                      then room\<lparr>currentQuestionIndex := currentQuestionIndex room + 1\<rparr>
                      else room\<lparr>status := finished\<rparr>)
               in Inr (notify roomId (db\<lparr>rooms := AList.update roomId room' (rooms db)\<rparr>))))"

definition finishQuiz :: "InMemoryDb \<Rightarrow> string \<Rightarrow> Error + InMemoryDb" where
  "finishQuiz db roomId =
     (case js_prop (rooms db) roomId of
        Missing \<Rightarrow> Inl Room_not_found
      | Inherited \<Rightarrow> Inl TypeError
      | Own room \<Rightarrow>
          let room' = room\<lparr>status := finished\<rparr>
          in Inr (notify roomId (db\<lparr>rooms := AList.update roomId room' (rooms db)\<rparr>)))"

text \<open>
  \<^verbatim>\<open>room.participants.find(..)\<close> followed by a mutation of the object found: the
  first element that satisfies the test is replaced.
\<close>

fun update_first :: "('a \<Rightarrow> bool) \<Rightarrow> ('a \<Rightarrow> 'a) \<Rightarrow> 'a list \<Rightarrow> 'a list" where
  "update_first P f [] = []"
| "update_first P f (x # xs) = (if P x then f x # xs else x # update_first P f xs)"

text \<open>\<^verbatim>\<open>room.answers[questionId] || []\<close>\<close>

definition answers_for :: "Room \<Rightarrow> string \<Rightarrow> SubmittedAnswer list" where
  "answers_for room q = (case map_of (answers room) q of None \<Rightarrow> [] | Some xs \<Rightarrow> xs)"

definition credit :: "string \<Rightarrow> rat \<Rightarrow> Participant \<Rightarrow> Participant" where
  "credit q pts p =
     p\<lparr>score := score p + pts,
       answeredQuestionIds :=
         (if q \<in> set (answeredQuestionIds p) then answeredQuestionIds p
          else answeredQuestionIds p @ [q])\<rparr>"

text \<open>
  \<^verbatim>\<open>submitAnswer\<close>. In \<^verbatim>\<open>room.answers[questionId] = room.answers[questionId] || []\<close> a
  question id that names an inherited property reads the inherited function, which
  is truthy and is stored under the id; \<^verbatim>\<open>push\<close> on it is a TypeError, thrown before
  an answer is recorded and before the participant is looked up. (The function left
  under the id is not a list of answers and is not represented.)
\<close>

definition submitAnswer :: "InMemoryDb \<Rightarrow> string \<Rightarrow> string \<Rightarrow> string \<Rightarrow> jsval
    \<Rightarrow> rat option \<Rightarrow> nat \<Rightarrow> Error + SubmittedAnswer \<times> InMemoryDb" where
  "submitAnswer db roomId participantIdArg questionIdArg v timeTaken now =
     (case js_prop (rooms db) roomId of
        Missing \<Rightarrow> Inl Room_not_found
      | Inherited \<Rightarrow> Inl TypeError
      | Own room \<Rightarrow>
          (case map_of (quizzes db) (quizId room) of
             None \<Rightarrow> Inl TypeError
           | Some quiz \<Rightarrow>
               (case find (\<lambda>q. qid q = questionIdArg) (questions quiz) of
                  None \<Rightarrow> Inl Question_not_found
                | Some question \<Rightarrow>
                    let correct = isAnswerCorrect question v;
                        pts = calculatePoints question correct timeTaken;
                        answer = \<lparr>questionId = questionIdArg,
                                  participantId = participantIdArg,
                                  submitted = v, isCorrect = correct,
                                  timeTakenSec = timeTaken, submittedAt = now,
                                  pointsAwarded = pts\<rparr>
                    in (case js_prop (answers room) questionIdArg of
                          Inherited \<Rightarrow> Inl TypeError
                        | stored \<Rightarrow>
                            let room1 = room\<lparr>answers :=
                                      AList.update questionIdArg
                                        (answers_for room questionIdArg @ [answer])
                                        (answers room)\<rparr>;
                                room2 = room1\<lparr>participants :=
                                      update_first (\<lambda>p. pid p = participantIdArg)
                                        (credit questionIdArg pts) (participants room1)\<rparr>
                            in Inr (answer,
                                    notify roomId
                                      (db\<lparr>rooms := AList.update roomId room2 (rooms db)\<rparr>))))))"

text \<open>
  \<^verbatim>\<open>onRoomUpdate\<close>: the callback joins the room's listener set (a set keeps one copy,
  in insertion order) and, if the room exists, is called at once with the current
  snapshot. The closure it returns (unsubscribe) is not modelled.
\<close>

definition onRoomUpdate :: "InMemoryDb \<Rightarrow> string \<Rightarrow> Listener \<Rightarrow> InMemoryDb" where
  "onRoomUpdate db roomId cb =
     (let ls = (case map_of (listeners db) roomId of None \<Rightarrow> [] | Some l \<Rightarrow> l);
          ls' = (if cb \<in> set ls then ls else ls @ [cb]);
          db1 = db\<lparr>listeners := AList.update roomId ls' (listeners db)\<rparr>
      in (case map_of (rooms db1) roomId of
            None \<Rightarrow> db1
          | Some room \<Rightarrow>
              db1\<lparr>delivered := delivered db1 @
                     [(cb, (room, map_of (quizzes db1) (quizId room)))]\<rparr>))"

subsection \<open>Sequences of operations\<close>

datatype Op =
    CreateQuiz string "Question list" string nat
  | CreateRoom string string string nat
  | JoinRoom string string string
  | StartQuiz string
  | GoToNextQuestion string
  | FinishQuiz string
  | SubmitAnswer string string string jsval "rat option" nat
  | OnRoomUpdate string Listener

text \<open>One call of the data source; a call that throws leaves the database as it was.\<close>

fun step :: "InMemoryDb \<Rightarrow> Op \<Rightarrow> InMemoryDb" where
  "step db (CreateQuiz ttl qs newId now) = snd (createQuiz db ttl qs newId now)"
| "step db (CreateRoom q newId newCode now) =
     (case createRoom db q newId newCode now of Inl e \<Rightarrow> db | Inr res \<Rightarrow> snd res)"
| "step db (JoinRoom c name newPid) =
     (case joinRoom db c name newPid of Inl e \<Rightarrow> db | Inr res \<Rightarrow> snd res)"
| "step db (StartQuiz r) = (case startQuiz db r of Inl e \<Rightarrow> db | Inr db' \<Rightarrow> db')"
| "step db (GoToNextQuestion r) =
     (case goToNextQuestion db r of Inl e \<Rightarrow> db | Inr db' \<Rightarrow> db')"
| "step db (FinishQuiz r) = (case finishQuiz db r of Inl e \<Rightarrow> db | Inr db' \<Rightarrow> db')"
| "step db (SubmitAnswer r p q v t now) =
     (case submitAnswer db r p q v t now of Inl e \<Rightarrow> db | Inr res \<Rightarrow> snd res)"
| "step db (OnRoomUpdate r cb) = onRoomUpdate db r cb"

definition all_answers :: "Room \<Rightarrow> SubmittedAnswer list" where
  "all_answers room = concat (map snd (answers room))"

text \<open>The points awarded over all answers of the room that carry the participant id.\<close>

definition awarded :: "Room \<Rightarrow> string \<Rightarrow> rat" where
  "awarded room i =
     sum_list (map pointsAwarded (filter (\<lambda>a. participantId a = i) (all_answers room)))"

text \<open>
  What \<^verbatim>\<open>generateId\<close> is relied on for in \<open>joinRoom\<close>: the identifier of a new
  participant has not occurred in any room, neither as a participant nor on a
  recorded answer.
\<close>

definition fresh_pid :: "InMemoryDb \<Rightarrow> string \<Rightarrow> bool" where
  "fresh_pid db i =
     list_all (\<lambda>room. i \<notin> set (map pid (participants room)) \<and>
                      i \<notin> set (map participantId (all_answers room)))
       (map snd (rooms db))"

fun new_pid_fresh :: "InMemoryDb \<Rightarrow> Op \<Rightarrow> bool" where
  "new_pid_fresh db (JoinRoom c name newPid) = fresh_pid db newPid"
| "new_pid_fresh db op = True"

text \<open>
  The discipline of the moderator's page: \<open>startQuiz\<close> is called for a room in the
  lobby only (the page shows the button in the lobby only), and \<open>createRoom\<close> gets an
  identifier under which no room is stored.
\<close>

fun start_guarded :: "InMemoryDb \<Rightarrow> Op \<Rightarrow> bool" where
  "start_guarded db (StartQuiz r) =
     (case map_of (rooms db) r of None \<Rightarrow> True | Some room \<Rightarrow> status room = lobby)"
| "start_guarded db (CreateRoom q newId newCode now) = (map_of (rooms db) newId = None)"
| "start_guarded db op = True"

text \<open>A condition holds for each operation of a sequence, in the state it is run in.\<close>

fun along :: "(InMemoryDb \<Rightarrow> Op \<Rightarrow> bool) \<Rightarrow> InMemoryDb \<Rightarrow> Op list \<Rightarrow> bool" where
  "along ok db [] = True"
| "along ok db (op # ops) = (ok db op \<and> along ok (step db op) ops)"

text \<open>The order of the lifecycle: lobby, running, finished.\<close>

fun rank :: "RoomStatus \<Rightarrow> nat" where
  "rank lobby = 0"
| "rank running = 1"
| "rank finished = 2"

text \<open>An upper-case letter or a digit.\<close>

definition upper_or_digit :: "char \<Rightarrow> bool" where
  "upper_or_digit c = (let n = (of_char c :: nat) in (65 \<le> n \<and> n \<le> 90) \<or> (48 \<le> n \<and> n \<le> 57))"

subsection \<open>A sample quiz and room\<close>

text \<open>
  A quiz of three questions (multiple choice, fill-in-blank, match), one room with the
  participant Ann, and the calls that build them.
\<close>

definition ex_q1 :: Question where
  "ex_q1 = \<lparr>qid = ''q1'', prompt = ''Which is a prime number?'', points = Some 10,
            timeLimitSec = None, body = MCQ [''9'', ''12'', ''13'', ''21''] 2\<rparr>"

definition ex_q2 :: Question where
  "ex_q2 = \<lparr>qid = ''q2'', prompt = ''The chemical symbol for water'', points = None,
            timeLimitSec = Some 30, body = Fill ''H2O''\<rparr>"

definition ex_q3 :: Question where
  "ex_q3 = \<lparr>qid = ''q3'', prompt = ''Match'', points = Some 10, timeLimitSec = Some 30,
            body = Drag [(''A'', ''a''), (''B'', ''b'')] [(''1'', ''one''), (''2'', ''two'')]
                        [(''A'', ''1''), (''B'', ''2'')]\<rparr>"

definition ex_quiz :: Quiz where
  "ex_quiz = \<lparr>quiz_id = ''quiz_1'', title = ''Sample Quiz'',
              questions = [ex_q1, ex_q2, ex_q3], quiz_createdAt = 1000\<rparr>"

definition ex_room :: "RoomStatus \<Rightarrow> int \<Rightarrow> Participant list
    \<Rightarrow> (string \<times> SubmittedAnswer list) list \<Rightarrow> Room" where
  "ex_room st i ps ans =
     \<lparr>rid = ''room_1'', code = ''ABC234'', quizId = ''quiz_1'', status = st,
      currentQuestionIndex = i, participants = ps, answers = ans, createdAt = 1001\<rparr>"

definition ex_ann :: "rat \<Rightarrow> string list \<Rightarrow> Participant" where
  "ex_ann sc answered =
     \<lparr>pid = ''p_1'', pname = ''Ann'', score = sc, answeredQuestionIds = answered\<rparr>"

definition ex_db :: "Room \<Rightarrow> InMemoryDb" where
  "ex_db room =
     \<lparr>quizzes = [(''quiz_1'', ex_quiz)], rooms = [(''room_1'', room)],
      listeners = [(''room_1'', [])], delivered = []\<rparr>"

definition ex_answer :: "string \<Rightarrow> nat \<Rightarrow> SubmittedAnswer" where
  "ex_answer p now =
     \<lparr>questionId = ''q1'', participantId = p, submitted = JNum 2, isCorrect = True,
      timeTakenSec = None, submittedAt = now, pointsAwarded = 10\<rparr>"

definition ex_setup :: "Op list" where
  "ex_setup =
     [CreateQuiz ''Sample Quiz'' [ex_q1, ex_q2, ex_q3] ''quiz_1'' 1000,
      CreateRoom ''quiz_1'' ''room_1'' ''ABC234'' 1001,
      JoinRoom ''ABC234'' ''Ann'' ''p_1'',
      StartQuiz ''room_1'']"

definition ex_q5 :: Question where
  "ex_q5 = \<lparr>qid = ''q5'', prompt = ''Five points'', points = Some 5,
            timeLimitSec = Some 30, body = Fill ''x''\<rparr>"

definition ex_q6 :: Question where
  "ex_q6 = \<lparr>qid = ''q6'', prompt = ''Six points'', points = Some 6,
            timeLimitSec = Some 12, body = Fill ''x''\<rparr>"

definition ex_q7 :: Question where
  "ex_q7 = \<lparr>qid = ''q7'', prompt = ''Two and a half points'', points = Some (5 / 2),
            timeLimitSec = Some 30, body = Fill ''x''\<rparr>"

definition ex_q8 :: Question where
  "ex_q8 = \<lparr>qid = ''constructor'', prompt = ''A question named like a property'',
            points = Some 10, timeLimitSec = None, body = MCQ [''a'', ''b''] 0\<rparr>"

definition ex_db8 :: InMemoryDb where
  "ex_db8 =
     \<lparr>quizzes = [(''quiz_8'', \<lparr>quiz_id = ''quiz_8'', title = ''Names'', questions = [ex_q8],
                                quiz_createdAt = 1000\<rparr>)],
      rooms = [(''room_8'', \<lparr>rid = ''room_8'', code = ''XYZ789'', quizId = ''quiz_8'',
                              status = running, currentQuestionIndex = 0,
                              participants = [ex_ann 0 []], answers = [],
                              createdAt = 1001\<rparr>)],
      listeners = [(''room_8'', [])], delivered = []\<rparr>"

definition ex_q4 :: Question where
  "ex_q4 = \<lparr>qid = ''q4'', prompt = ''Is water wet?'', points = Some 10,
            timeLimitSec = None, body = Fill ''True''\<rparr>"

text \<open>The calls of a short session after the quiz has started.\<close>

definition ex_play :: "Op list" where
  "ex_play =
     [SubmitAnswer ''room_1'' ''p_1'' ''q1'' (JNum 2) None 2000,
      GoToNextQuestion ''room_1'',
      SubmitAnswer ''room_1'' ''p_1'' ''q2'' (JStr '' h2o '') (Some 15) 2001,
      GoToNextQuestion ''room_1'',
      GoToNextQuestion ''room_1'',
      JoinRoom ''ABC234'' ''Bob'' ''p_2'',
      GoToNextQuestion ''room_1'']"

definition ex_bob :: Participant where
  "ex_bob = \<lparr>pid = ''p_2'', pname = ''Bob'', score = 0, answeredQuestionIds = []\<rparr>"

definition ex_answer2 :: SubmittedAnswer where
  "ex_answer2 =
     \<lparr>questionId = ''q2'', participantId = ''p_1'', submitted = JStr '' h2o '',
      isCorrect = True, timeTakenSec = Some 15, submittedAt = 2001, pointsAwarded = 5\<rparr>"

subsection \<open>The score invariant\<close>

text \<open>
  In a room the participant ids are distinct and every participant's score is the sum
  of the points awarded on the answers that carry the participant's id.
\<close>

definition score_inv :: "Room \<Rightarrow> bool" where
  "score_inv room =
     (distinct (map pid (participants room)) \<and>
      list_all (\<lambda>p. score p = awarded room (pid p)) (participants room))"

definition db_inv :: "InMemoryDb \<Rightarrow> bool" where
  "db_inv db = (\<forall>r room. map_of (rooms db) r = Some room \<longrightarrow> score_inv room)"

section \<open>Reading a table\<close>

lemma js_prop_Own: "map_of obj k = Some v \<Longrightarrow> js_prop obj k = Own v"
  by (simp add: js_prop_def)


text \<open>
  The operations at the name \<^verbatim>\<open>constructor\<close>, which every table inherits: as a room
  id it passes the guard \<^verbatim>\<open>!room\<close> and the call ends in a TypeError; as a quiz id it
  passes the guard of \<open>createRoom\<close>, and the room that is created cannot be advanced;
  as the id of a question it makes \<open>submitAnswer\<close> end in a TypeError, no answer
  recorded and no score changed.
\<close>

lemma ex_inherited_keys:
  "startQuiz db0 ''constructor'' = Inl TypeError"
  "goToNextQuestion db0 ''constructor'' = Inl TypeError"
  "finishQuiz db0 ''constructor'' = Inl TypeError"
  "submitAnswer db0 ''constructor'' ''p_1'' ''q1'' (JNum 2) None 2000 = Inl TypeError"
  "startQuiz db0 ''room_1'' = Inl Room_not_found"
  "createRoom db0 ''quiz_1'' ''room_1'' ''ABC234'' 1001 = Inl Quiz_not_found"
  "createRoom db0 ''constructor'' ''room_1'' ''ABC234'' 1001
     = Inr (\<lparr>rid = ''room_1'', code = ''ABC234'', quizId = ''constructor'', status = lobby,
              currentQuestionIndex = - 1, participants = [], answers = [], createdAt = 1001\<rparr>,
            \<lparr>quizzes = [],
              rooms = [(''room_1'',
                 \<lparr>rid = ''room_1'', code = ''ABC234'', quizId = ''constructor'', status = lobby,
                  currentQuestionIndex = - 1, participants = [], answers = [],
                  createdAt = 1001\<rparr>)],
              listeners = [(''room_1'', [])], delivered = []\<rparr>)"
  "goToNextQuestion (step db0 (CreateRoom ''constructor'' ''room_1'' ''ABC234'' 1001)) ''room_1''
     = Inl TypeError"
  "submitAnswer ex_db8 ''room_8'' ''p_1'' ''constructor'' (JNum 0) None 2000 = Inl TypeError"
  "submitAnswer ex_db8 ''room_8'' ''ghost'' ''constructor'' (JNum 0) None 2000 = Inl TypeError"
  by code_simp+

section \<open>Grading\<close>

lemma strict_eq_JStr: "strict_eq v (JStr t) = (v = JStr t)"
  by (cases v) auto

lemma drag_keys_all:
  "list_all (\<lambda>k. case map_of expected k of
                    Some t \<Rightarrow> strict_eq (js_get (JObj ps) k) (JStr t)
                  | None \<Rightarrow> strict_eq (js_get (JObj ps) k) JUndefined)
            (remdups (map fst expected))
   = (\<forall>k t. map_of expected k = Some t \<longrightarrow> map_of ps k = Some (JStr t))"
  (is "?L = ?R")
proof
  assume l: ?L
  show ?R
  proof (intro allI impI)
    fix k t assume kt: "map_of expected k = Some t"
    then have "k \<in> set (remdups (map fst expected))"
      by (auto dest: map_of_SomeD simp: rev_image_eqI)
    with l kt have "strict_eq (js_get (JObj ps) k) (JStr t)"
      by (auto simp: list_all_iff)
    then show "map_of ps k = Some (JStr t)"
      by (auto simp: strict_eq_JStr split: option.splits)
  qed
next
  assume r: ?R
  show ?L unfolding list_all_iff
  proof
    fix k assume "k \<in> set (remdups (map fst expected))"
    then obtain t where kt: "map_of expected k = Some t"
      by (metis map_of_eq_None_iff not_Some_eq set_map set_remdups)
    with r have "map_of ps k = Some (JStr t)" by blast
    with kt show "case map_of expected k of
                    Some t \<Rightarrow> strict_eq (js_get (JObj ps) k) (JStr t)
                  | None \<Rightarrow> strict_eq (js_get (JObj ps) k) JUndefined"
      by (simp add: strict_eq_JStr)
  qed
qed

text \<open>
  Claim C4, as the code has it. The claim says that a submitted mapping with an entry
  beyond the canonical pairing is not correct. \<open>isAnswerCorrect\<close> walks the keys of
  \<open>correctMapping\<close> only, so a surplus entry is never looked at: the mapping below
  pairs A and B as expected, adds C, and is graded correct.
\<close>

theorem C4_counterexample:
  "isAnswerCorrect ex_q3 (JObj [(''A'', JStr ''1''), (''B'', JStr ''2''), (''C'', JStr ''3'')])"
  by code_simp

text \<open>
  Claim C4 (amended): a match question is graded correct iff the submitted value is an
  object that gives, for every item of the canonical mapping, exactly the canonical
  target as a string. A missing or a wrong entry makes the answer incorrect
  (all or nothing); entries under other keys are ignored; a value that is not an
  object is incorrect.
\<close>

theorem C4_drag_grading:
  "body q = Drag its tgs expected \<Longrightarrow>
   isAnswerCorrect q v =
     (\<exists>ps. v = JObj ps \<and> (\<forall>k t. map_of expected k = Some t \<longrightarrow> map_of ps k = Some (JStr t)))"
proof (cases v)
  case (JObj ps)
  assume "body q = Drag its tgs expected"
  with JObj show ?thesis by (simp add: isAnswerCorrect_def drag_keys_all)
qed (simp_all add: isAnswerCorrect_def)

lemma ex_q3_grading:
  "isAnswerCorrect ex_q3 (JObj [(''B'', JStr ''2''), (''A'', JStr ''1'')])"
  "\<not> isAnswerCorrect ex_q3 (JObj [(''A'', JStr ''1''), (''B'', JStr ''1'')])"
  "\<not> isAnswerCorrect ex_q3 (JObj [(''A'', JStr ''1'')])"
  by code_simp+

text \<open>
  The amended C4 at the sample match question: the complete mapping is correct in any
  key order, the spec's example with B misassigned and a mapping without B are not.
\<close>

theorem C4_drag_grading_witness:
  "body ex_q3 = Drag [(''A'', ''a''), (''B'', ''b'')] [(''1'', ''one''), (''2'', ''two'')]
                     [(''A'', ''1''), (''B'', ''2'')]
   \<and> isAnswerCorrect ex_q3 (JObj [(''B'', JStr ''2''), (''A'', JStr ''1'')])
   \<and> \<not> isAnswerCorrect ex_q3 (JObj [(''A'', JStr ''1''), (''B'', JStr ''1'')])
   \<and> \<not> isAnswerCorrect ex_q3 (JObj [(''A'', JStr ''1'')])"
  using C4_drag_grading [of ex_q3 "[(''A'', ''a''), (''B'', ''b'')]"
      "[(''1'', ''one''), (''2'', ''two'')]" "[(''A'', ''1''), (''B'', ''2'')]"
      "JObj [(''A'', JStr ''1'')]"]
  by (simp add: ex_q3_grading) (simp add: ex_q3_def)

text \<open>
  Claim C8, as the code has it. The claim says that a value which is not a string is
  coerced to one and can be graded correct. The code returns false for every value
  whose \<^verbatim>\<open>typeof\<close> is not \<^verbatim>\<open>string\<close>: the boolean \<^verbatim>\<open>true\<close>, whose coercion
  \<^verbatim>\<open>"true"\<close> normalizes to the expected answer \<^verbatim>\<open>"True"\<close>, is graded incorrect.
\<close>

theorem C8_counterexample:
  "spec_fill_correct (expectedAnswer (body ex_q4)) (JBool True) \<and> \<not> isAnswerCorrect ex_q4 (JBool True)"
  by code_simp

text \<open>
  Claim C8 (amended): a fill-in-blank question is graded correct iff the submitted value
  is a string which, trimmed and lower-cased, equals the expected answer trimmed and
  lower-cased. No value of another type is coerced; each is graded incorrect.
\<close>

theorem C8_fill_grading:
  "body q = Fill expected \<Longrightarrow>
   isAnswerCorrect q v = (\<exists>s. v = JStr s \<and> normalizeString s = normalizeString expected)"
  by (cases v) (simp_all add: isAnswerCorrect_def)

text \<open>
  The amended C8 at the spec's example (expected H2O, submitted " h2o "), and at a
  number.
\<close>

theorem C8_fill_grading_witness:
  "body ex_q2 = Fill ''H2O'' \<and> isAnswerCorrect ex_q2 (JStr '' h2o '') \<and> \<not> isAnswerCorrect ex_q2 (JNum 2)"
  using C8_fill_grading [of ex_q2 "''H2O''" "JStr '' h2o ''"] C8_fill_grading [of ex_q2 "''H2O''" "JNum 2"]
  by (simp add: ex_q2_def) code_simp

section \<open>Scoring\<close>

lemma floor_half: "\<lfloor>(1::rat) / 2\<rfloor> = 0"
  by (rule floor_unique) simp_all

lemma Math_round_int: "x \<in> \<int> \<Longrightarrow> Math_round x = x"
  unfolding Math_round_def by (auto elim!: Ints_cases simp: floor_half)

lemma round_half_even_ge: "of_int k \<le> y \<Longrightarrow> k \<le> round_half_even y"
proof -
  assume "of_int k \<le> y"
  then have "k \<le> \<lfloor>y\<rfloor>" by (simp add: le_floor_iff)
  then show ?thesis by (auto simp: round_half_even_def Let_def)
qed

lemma ilog2_ge1: "1 \<le> x \<Longrightarrow> 0 \<le> ilog2 x \<and> 2 powi (ilog2 x) \<le> x"
proof -
  assume x: "1 \<le> x"
  then have pos: "0 < \<lfloor>x\<rfloor>" by (simp add: floor_less_iff less_floor_iff)
  from bitlen_bounds [OF pos] have b: "2 ^ nat (bitlen \<lfloor>x\<rfloor> - 1) \<le> \<lfloor>x\<rfloor>" by simp
  from pos have ge: "1 \<le> bitlen \<lfloor>x\<rfloor>"
    using bitlen_eq_zero_iff [of "\<lfloor>x\<rfloor>"] bitlen_nonneg [of "\<lfloor>x\<rfloor>"] by linarith
  from b have "(of_int (2 ^ nat (bitlen \<lfloor>x\<rfloor> - 1)) :: rat) \<le> of_int \<lfloor>x\<rfloor>"
    by (simp only: of_int_le_iff)
  also have "\<dots> \<le> x" by (rule of_int_floor_le)
  finally have "(2::rat) ^ nat (bitlen \<lfloor>x\<rfloor> - 1) \<le> x" by simp
  then show ?thesis using x ge by (simp add: ilog2_def power_int_def)
qed

lemma fl_ge1: "1 \<le> x \<Longrightarrow> 1 \<le> fl x"
proof -
  assume x: "1 \<le> x"
  let ?e = "ilog2 x"
  let ?q = "(2::rat) powi (?e - 52)"
  from ilog2_ge1 [OF x] have e: "0 \<le> ?e" and le: "2 powi ?e \<le> x" by simp_all
  have q: "0 < ?q" by simp
  have split: "(2::rat) powi ?e = 2 ^ 52 * ?q"
    by (simp add: power_int_diff)
  have "of_int (2 ^ 52) \<le> x / ?q"
    using le q by (simp add: split pos_le_divide_eq)
  then have "(2 ^ 52 :: int) \<le> round_half_even (x / ?q)" by (rule round_half_even_ge)
  then have "(of_int (2 ^ 52) :: rat) \<le> of_int (round_half_even (x / ?q))"
    by (simp only: of_int_le_iff)
  then have "2 ^ 52 * ?q \<le> of_int (round_half_even (x / ?q)) * ?q"
    using q by simp
  moreover have "(1::rat) \<le> 2 powi ?e" using e by (simp add: power_int_def)
  ultimately have "1 \<le> of_int (round_half_even (x / ?q)) * ?q" using split by linarith
  then show ?thesis using x by (simp add: fl_def Let_def)
qed

lemma fl_nonpos: "x \<le> 0 \<Longrightarrow> fl x \<le> 0"
proof (cases "x = 0")
  case True
  then show ?thesis by (simp add: fl_def)
next
  case False
  assume "x \<le> 0"
  with False have neg: "x < 0" by simp
  let ?q = "(2::rat) powi (ilog2 \<bar>x\<bar> - 52)"
  have "0 < ?q" by simp
  moreover have "0 \<le> round_half_even (\<bar>x\<bar> / ?q)"
    by (rule round_half_even_ge) simp
  ultimately have "0 \<le> of_int (round_half_even (\<bar>x\<bar> / ?q)) * ?q" by simp
  then show ?thesis using neg False by (simp add: fl_def Let_def mult.assoc)
qed

text \<open>
  \<open>fl\<close> is rounding to the nearest double: \<open>ilog2\<close> is the exponent of the binade,
  the result has a significand of 53 bits in that binade (or is the power of two
  that ends it), and it is at most half a unit in the last place away.
\<close>

lemma round_half_even_near: "\<bar>of_int (round_half_even y) - y\<bar> \<le> 1 / 2"
proof -
  have "of_int \<lfloor>y\<rfloor> \<le> y" "y < of_int \<lfloor>y\<rfloor> + 1" by linarith+
  then show ?thesis by (auto simp: round_half_even_def Let_def abs_le_iff)
qed

lemma ilog2_upper_ge1:
  assumes "1 \<le> x" shows "2 powi (ilog2 x) \<le> x" "x < 2 powi (ilog2 x + 1)"
proof -
  from assms have pos: "0 < \<lfloor>x\<rfloor>" by (simp add: less_floor_iff)
  from bitlen_bounds [OF pos] have b: "2 ^ nat (bitlen \<lfloor>x\<rfloor> - 1) \<le> \<lfloor>x\<rfloor>"
    and c: "\<lfloor>x\<rfloor> < 2 ^ nat (bitlen \<lfloor>x\<rfloor>)" by simp_all
  from pos have ge: "1 \<le> bitlen \<lfloor>x\<rfloor>"
    using bitlen_eq_zero_iff [of "\<lfloor>x\<rfloor>"] bitlen_nonneg [of "\<lfloor>x\<rfloor>"] by linarith
  from b have "(of_int (2 ^ nat (bitlen \<lfloor>x\<rfloor> - 1)) :: rat) \<le> of_int \<lfloor>x\<rfloor>"
    by (simp only: of_int_le_iff)
  also have "\<dots> \<le> x" by (rule of_int_floor_le)
  finally have "(2::rat) ^ nat (bitlen \<lfloor>x\<rfloor> - 1) \<le> x" by simp
  then show "2 powi (ilog2 x) \<le> x" using assms ge by (simp add: ilog2_def power_int_def)
  from c have "\<lfloor>x\<rfloor> < \<lfloor>(2::rat) ^ nat (bitlen \<lfloor>x\<rfloor>)\<rfloor>"
    by (metis floor_of_int of_int_numeral of_int_power)
  then have "x < 2 ^ nat (bitlen \<lfloor>x\<rfloor>)"
    using floor_less_cancel by blast
  then show "x < 2 powi (ilog2 x + 1)" using assms ge by (simp add: ilog2_def power_int_def)
qed

lemma ilog2_bounds_lt1:
  assumes "0 < x" "x < 1" shows "2 powi (ilog2 x) \<le> x" "x < 2 powi (ilog2 x + 1)"
proof -
  let ?n = "\<lceil>1 / x\<rceil>"
  let ?b = "bitlen (?n - 1)"
  from assms have gt: "1 < 1 / x" by simp
  then have n2: "2 \<le> ?n" by (simp add: le_ceiling_iff)
  then have pos: "0 < ?n - 1" by simp
  from bitlen_bounds [OF pos] have lo: "2 ^ nat (?b - 1) \<le> ?n - 1"
    and hi: "?n - 1 < 2 ^ nat ?b" by simp_all
  from pos have ge: "1 \<le> ?b"
    using bitlen_eq_zero_iff [of "?n - 1"] bitlen_nonneg [of "?n - 1"] by linarith
  have e: "ilog2 x = - ?b" using assms by (simp add: ilog2_def)
  from hi have "?n \<le> 2 ^ nat ?b" by simp
  then have "1 / x \<le> of_int (2 ^ nat ?b)" by (simp only: ceiling_le_iff)
  then have "1 / x \<le> 2 ^ nat ?b" by simp
  then have "1 \<le> 2 ^ nat ?b * x" using assms(1) by (simp add: pos_divide_le_eq mult.commute)
  then have "1 / 2 ^ nat ?b \<le> x" by (simp add: pos_divide_le_eq mult.commute)
  then show "2 powi (ilog2 x) \<le> x" using ge by (simp add: e power_int_def inverse_eq_divide power_divide)
  from lo have "2 ^ nat (?b - 1) < ?n" by simp
  then have "of_int (2 ^ nat (?b - 1)) < 1 / x" by (simp only: less_ceiling_iff)
  then have "2 ^ nat (?b - 1) < 1 / x" by simp
  then have "2 ^ nat (?b - 1) * x < 1" using assms(1) by (simp add: pos_less_divide_eq)
  then have "x < 1 / 2 ^ nat (?b - 1)" by (simp add: pos_less_divide_eq mult.commute)
  moreover have "ilog2 x + 1 = - (?b - 1)" by (simp add: e)
  ultimately show "x < 2 powi (ilog2 x + 1)" using ge assms(2)
    by (simp add: power_int_def inverse_eq_divide power_divide)
qed

lemma ilog2_bounds: "0 < x \<Longrightarrow> 2 powi (ilog2 x) \<le> x \<and> x < 2 powi (ilog2 x + 1)"
  using ilog2_upper_ge1 [of x] ilog2_bounds_lt1 [of x] by (cases "1 \<le> x") auto

lemma round_half_even_le: "y \<le> of_int k \<Longrightarrow> round_half_even y \<le> k"
proof -
  assume a: "y \<le> of_int k"
  have fl: "of_int \<lfloor>y\<rfloor> \<le> y" by linarith
  show ?thesis
  proof (cases "y = of_int \<lfloor>y\<rfloor>")
    case True
    then have "round_half_even y = \<lfloor>y\<rfloor>" by (simp add: round_half_even_def Let_def)
    moreover have "\<lfloor>y\<rfloor> \<le> k" using a by (simp add: floor_le_iff)
    ultimately show ?thesis by simp
  next
    case False
    with fl have "of_int \<lfloor>y\<rfloor> < y" by linarith
    then have "of_int \<lfloor>y\<rfloor> < (of_int k :: rat)" using a by linarith
    then have "\<lfloor>y\<rfloor> < k" by (simp only: of_int_less_iff)
    then show ?thesis by (auto simp: round_half_even_def Let_def)
  qed
qed

lemma fl_is_double:
  assumes "x \<noteq> 0"
  shows "\<exists>m. fl x = sgn x * of_int m * 2 powi (ilog2 \<bar>x\<bar> - 52) \<and> 2 ^ 52 \<le> m \<and> m \<le> 2 ^ 53"
proof -
  let ?e = "ilog2 \<bar>x\<bar>"
  let ?q = "(2::rat) powi (?e - 52)"
  let ?m = "round_half_even (\<bar>x\<bar> / ?q)"
  from assms have pos: "0 < \<bar>x\<bar>" by simp
  from ilog2_bounds [OF pos] have lo: "2 powi ?e \<le> \<bar>x\<bar>" and hi: "\<bar>x\<bar> < 2 powi (?e + 1)"
    by simp_all
  have q: "0 < ?q" by simp
  have s1: "(2::rat) powi ?e = 2 ^ 52 * ?q" by (simp add: power_int_diff)
  have s2: "(2::rat) powi (?e + 1) = 2 ^ 53 * ?q" by (simp add: power_int_diff power_int_add)
  have "of_int (2 ^ 52) \<le> \<bar>x\<bar> / ?q" using lo q by (simp add: s1 pos_le_divide_eq)
  then have a: "2 ^ 52 \<le> ?m" by (rule round_half_even_ge)
  have "\<bar>x\<bar> / ?q \<le> of_int (2 ^ 53)" using hi q by (simp add: s2 pos_divide_le_eq)
  then have b: "?m \<le> 2 ^ 53" by (rule round_half_even_le)
  have "fl x = sgn x * of_int ?m * ?q" using assms by (simp add: fl_def Let_def)
  with a b show ?thesis by blast
qed

lemma fl_nearest:
  assumes "x \<noteq> 0"
  shows "\<bar>fl x - x\<bar> \<le> 2 powi (ilog2 \<bar>x\<bar> - 53)"
proof -
  let ?q = "(2::rat) powi (ilog2 \<bar>x\<bar> - 52)"
  let ?y = "\<bar>x\<bar> / ?q"
  have q: "0 < ?q" by simp
  have x: "x = sgn x * (?y * ?q)" using q by (simp add: mult_sgn_abs)
  have "fl x - x = sgn x * ((of_int (round_half_even ?y) - ?y) * ?q)"
    using assms by (subst (2) x) (simp add: fl_def Let_def algebra_simps)
  then have "\<bar>fl x - x\<bar> = \<bar>of_int (round_half_even ?y) - ?y\<bar> * ?q"
    using assms q by (simp add: abs_mult abs_sgn_eq)
  also have "\<dots> \<le> 1 / 2 * ?q"
    using round_half_even_near [of ?y] q by (intro mult_right_mono) simp_all
  also have "\<dots> = 2 powi (ilog2 \<bar>x\<bar> - 53)"
    by (simp add: power_int_diff)
  finally show ?thesis .
qed

lemma fl_values: "fl 0 = 0" "fl 1 = 1"
  by code_simp+

lemma calculatePoints_incorrect: "calculatePoints q False t = 0"
  by (simp add: calculatePoints_def)

lemma calculatePoints_untimed:
  "timeLimitSec q = None \<or> timeLimitSec q = Some 0 \<or> t = None \<Longrightarrow>
   calculatePoints q True t = base_points q"
  by (auto simp: calculatePoints_def Let_def split: option.splits)

lemma calculatePoints_timed:
  "timeLimitSec q = Some L \<Longrightarrow> L \<noteq> 0 \<Longrightarrow>
   calculatePoints q True (Some s) =
     Math_round (fl (base_points q * max (1 / 2) (fl (1 - fl (max 0 s / L)))))"
  by (simp add: calculatePoints_def Let_def)

lemma calculatePoints_early:
  "timeLimitSec q = Some L \<Longrightarrow> L \<noteq> 0 \<Longrightarrow> s \<le> 0 \<Longrightarrow> is_double (base_points q) \<Longrightarrow>
   calculatePoints q True (Some s) = Math_round (base_points q)"
  by (simp add: calculatePoints_timed max_def fl_values is_double_def)

lemma calculatePoints_late:
  assumes "timeLimitSec q = Some L" and "0 < L" and "L \<le> s"
  shows "calculatePoints q True (Some s) = Math_round (fl (base_points q * (1 / 2)))"
proof -
  from assms(2,3) have "1 \<le> max 0 s / L" by (simp add: max_def pos_le_divide_eq)
  then have "1 \<le> fl (max 0 s / L)" by (rule fl_ge1)
  then have "fl (1 - fl (max 0 s / L)) \<le> 0" by (intro fl_nonpos) simp
  then have "max (1 / 2) (fl (1 - fl (max 0 s / L))) = 1 / 2" by (simp add: max_def)
  then show ?thesis using assms(1,2) by (simp add: calculatePoints_timed)
qed

text \<open>
  Claim C5, as the code has it. The claim gives the score as
  \<open>round(base * max(0.5, 1 - max(0, timeTaken) / timeLimit))\<close> and concludes that a
  time of 0 scores the base. With 6 points, a limit of 12 and a time of 5 the formula
  is \<open>round 3.5 = 4\<close>, and the code, whose quotient and difference are doubles,
  multiplies 6 by a fraction just below \<open>7 / 12\<close> and returns 3. With 2.5 points the
  code rounds a time of 0 to 3 points, which is not the base.
\<close>

theorem C5_counterexample:
  "spec_points 6 12 5 = 4
   \<and> base_points ex_q6 = 6 \<and> timeLimitSec ex_q6 = Some 12
   \<and> calculatePoints ex_q6 True (Some 5) = 3
   \<and> base_points ex_q7 = 5 / 2 \<and> timeLimitSec ex_q7 = Some 30
   \<and> calculatePoints ex_q7 True (Some 0) = 3"
  by code_simp

text \<open>
  Claim C5 (amended): an incorrect answer scores 0. A correct answer scores the base
  points (\<open>points\<close>, 10 by default) when no time limit is configured (absent or 0) or
  no time was recorded, and otherwise \<open>Math.round\<close> of
  \<open>base * max 0.5 (1 - max 0 t / limit)\<close> computed in doubles: the quotient, the
  difference and the product are each rounded to the nearest double, so the score
  can be 1 below the formula over the exact numbers. With a positive limit, a time
  equal to the limit or beyond it scores \<open>Math.round\<close> of the double \<open>base * 0.5\<close>.
  A time of 0, or below 0, scores \<open>Math.round base\<close>, which is the base when the base
  is an integer.
\<close>

theorem C5_calculatePoints:
  "calculatePoints q False t = 0
   \<and> (timeLimitSec q = None \<or> timeLimitSec q = Some 0 \<or> t = None \<longrightarrow>
        calculatePoints q True t = base_points q)
   \<and> (timeLimitSec q = Some L \<and> L \<noteq> 0 \<longrightarrow>
        calculatePoints q True (Some s) =
          Math_round (fl (base_points q * max (1 / 2) (fl (1 - fl (max 0 s / L))))))
   \<and> (timeLimitSec q = Some L \<and> 0 < L \<and> L \<le> s \<longrightarrow>
        calculatePoints q True (Some s) = Math_round (fl (base_points q * (1 / 2))))
   \<and> (timeLimitSec q = Some L \<and> L \<noteq> 0 \<and> s \<le> 0 \<and> is_double (base_points q) \<longrightarrow>
        calculatePoints q True (Some s) = Math_round (base_points q))
   \<and> (timeLimitSec q = Some L \<and> L \<noteq> 0 \<and> s \<le> 0 \<and> is_double (base_points q) \<and>
        base_points q \<in> \<int> \<longrightarrow>
        calculatePoints q True (Some s) = base_points q)"
proof (intro conjI impI)
  show "calculatePoints q False t = 0" by (rule calculatePoints_incorrect)
next
  assume "timeLimitSec q = None \<or> timeLimitSec q = Some 0 \<or> t = None"
  then show "calculatePoints q True t = base_points q" by (rule calculatePoints_untimed)
next
  assume "timeLimitSec q = Some L \<and> L \<noteq> 0"
  then show "calculatePoints q True (Some s) =
          Math_round (fl (base_points q * max (1 / 2) (fl (1 - fl (max 0 s / L)))))"
    by (simp add: calculatePoints_timed)
next
  assume "timeLimitSec q = Some L \<and> 0 < L \<and> L \<le> s"
  then show "calculatePoints q True (Some s) = Math_round (fl (base_points q * (1 / 2)))"
    by (simp add: calculatePoints_late)
next
  assume "timeLimitSec q = Some L \<and> L \<noteq> 0 \<and> s \<le> 0 \<and> is_double (base_points q)"
  then show "calculatePoints q True (Some s) = Math_round (base_points q)"
    by (simp add: calculatePoints_early)
next
  assume "timeLimitSec q = Some L \<and> L \<noteq> 0 \<and> s \<le> 0 \<and> is_double (base_points q) \<and>
        base_points q \<in> \<int>"
  then show "calculatePoints q True (Some s) = base_points q"
    by (simp add: calculatePoints_early Math_round_int)
qed

lemma ex_q5_facts:
  "timeLimitSec ex_q5 = Some 30" "base_points ex_q5 = 5" "is_double 5"
  "timeLimitSec ex_q1 = None" "base_points ex_q2 = 10"
  by code_simp+

lemma ex_q5_points:
  "calculatePoints ex_q5 True (Some 10) = 3" "calculatePoints ex_q5 True (Some 30) = 3"
  "calculatePoints ex_q5 True (Some 45) = 3" "calculatePoints ex_q5 True (Some 0) = 5"
  "calculatePoints ex_q5 True (Some (- 5)) = 5" "calculatePoints ex_q5 True None = 5"
  "calculatePoints ex_q3 True (Some 15) = 5" "calculatePoints ex_q2 True None = 10"
  "Math_round (fl (5 * (1 / 2))) = 3" "Math_round 5 = 5"
  "Math_round (fl (5 * max (1 / 2) (fl (1 - fl (max 0 10 / 30))))) = 3"
  by code_simp+

lemma ex_q6_points:
  "timeLimitSec ex_q6 = Some 12"
  "Math_round (fl (base_points ex_q6 * max (1 / 2) (fl (1 - fl (max 0 5 / 12))))) = 3"
  "calculatePoints ex_q6 True (Some 5) = 3"
  by code_simp+

text \<open>
  The amended C5 at a question of 5 points and 30 seconds: a third of the time gone
  scores \<open>Math.round 3.33.. = 3\<close>, the whole time or more \<open>Math.round 2.5 = 3\<close>, no
  time or less 5; the spec's example (10 points, 30 seconds, 15 seconds taken)
  scores 5; and 6 points with 5 of 12 seconds taken score 3.
\<close>

theorem C5_calculatePoints_witness:
  "timeLimitSec ex_q5 = Some 30 \<and> (30::rat) \<noteq> 0 \<and> (0::rat) < 30 \<and> (30::rat) \<le> 45
   \<and> (- 5 :: rat) \<le> 0 \<and> is_double (base_points ex_q5) \<and> base_points ex_q5 \<in> \<int>
   \<and> calculatePoints ex_q5 False (Some 10) = 0
   \<and> calculatePoints ex_q5 True None = 5
   \<and> calculatePoints ex_q5 True (Some 10) = 3
   \<and> calculatePoints ex_q5 True (Some 30) = 3
   \<and> calculatePoints ex_q5 True (Some 45) = 3
   \<and> calculatePoints ex_q5 True (Some 0) = 5
   \<and> calculatePoints ex_q5 True (Some (- 5)) = 5
   \<and> calculatePoints ex_q3 True (Some 15) = 5
   \<and> calculatePoints ex_q2 True None = 10
   \<and> timeLimitSec ex_q6 = Some 12 \<and> (12::rat) \<noteq> 0
   \<and> Math_round (fl (base_points ex_q6 * max (1 / 2) (fl (1 - fl (max 0 5 / 12))))) = 3
   \<and> calculatePoints ex_q6 True (Some 5) = 3"
  using C5_calculatePoints [of ex_q5 "None" 30 45]
    C5_calculatePoints [of ex_q5 "Some 10" 30 10]
    C5_calculatePoints [of ex_q5 "Some 10" 30 "- 5"]
    C5_calculatePoints [of ex_q6 "Some 5" 12 5]
  by (simp add: ex_q5_facts ex_q5_points ex_q6_points)

section \<open>Subscriptions\<close>

lemma notify_fields [simp]:
  "rooms (notify r db) = rooms db" "quizzes (notify r db) = quizzes db"
  "listeners (notify r db) = listeners db"
  by (simp_all add: notify_def Let_def split: option.splits)



lemma onRoomUpdate_fields:
  "rooms (onRoomUpdate db roomId cb) = rooms db"
  "quizzes (onRoomUpdate db roomId cb) = quizzes db"
  by (simp_all add: onRoomUpdate_def Let_def split: option.splits)




section \<open>Lookup by join code\<close>

lemma getRoomByCode_None:
  "(getRoomByCode db c = None) = (\<forall>room \<in> set (map snd (rooms db)). code room \<noteq> c)"
proof -
  have "(getRoomByCode db c = None) = (find (\<lambda>r. code r = c) (map snd (rooms db)) = None)"
    by (simp add: getRoomByCode_def split: option.splits)
  then show ?thesis by (simp add: find_None_iff)
qed

lemma joinRoom_not_found:
  "\<forall>room \<in> set (map snd (rooms db)). code room \<noteq> c \<Longrightarrow> joinRoom db c name newPid = Inl Room_not_found"
  using getRoomByCode_None [of db c] by (simp add: joinRoom_def)

lemma draw_index: "0 \<le> (r::rat) \<Longrightarrow> r < 1 \<Longrightarrow> nat \<lfloor>r * of_nat (length letters)\<rfloor> < length letters"
proof -
  assume r: "0 \<le> r" "r < 1"
  have len: "length letters = 32" by (simp add: letters_def)
  have "r * 32 < 32" using r by simp
  then have "\<lfloor>r * 32\<rfloor> < 32" by (simp add: floor_less_iff)
  moreover have "0 \<le> \<lfloor>r * 32\<rfloor>" using r by simp
  ultimately have "nat \<lfloor>r * 32\<rfloor> < 32" by linarith
  then show ?thesis by (simp add: len)
qed

lemma generateRoomCode_letters:
  "list_all (\<lambda>r. 0 \<le> r \<and> r < 1) draws \<Longrightarrow> set (generateRoomCode draws) \<subseteq> set letters"
proof -
  assume a: "list_all (\<lambda>r. 0 \<le> r \<and> r < 1) draws"
  have "0 \<le> r \<and> r < 1" if "r \<in> set (take 6 draws)" for r
    using a that by (auto simp: list_all_iff dest: in_set_takeD)
  then show ?thesis
    unfolding generateRoomCode_def by (auto intro!: nth_mem draw_index)
qed

lemma letters_upper_or_digit: "list_all upper_or_digit letters"
  by code_simp

lemma getRoomByCode_Some: "getRoomByCode db c = Some (room, q) \<Longrightarrow> code room = c"
  by (auto simp: getRoomByCode_def find_Some_iff split: option.splits)

lemma codes_differ:
  "\<forall>room \<in> set (map snd (rooms db)). list_all upper_or_digit (code room) \<Longrightarrow>
   \<not> list_all upper_or_digit c \<Longrightarrow> \<forall>room \<in> set (map snd (rooms db)). code room \<noteq> c"
  by auto

lemma generateRoomCode_upper_or_digit:
  "list_all (\<lambda>r. 0 \<le> r \<and> r < 1) draws \<Longrightarrow> list_all upper_or_digit (generateRoomCode draws)"
  using generateRoomCode_letters [of draws] letters_upper_or_digit
  by (auto simp: list_all_iff)

text \<open>
  Claim C10: lookup by join code is exact. \<open>getRoomByCode\<close> returns null iff no room
  has exactly the code asked for, a room it returns has that code, and \<open>joinRoom\<close>
  then fails with "Room not found". A generated code consists of upper-case letters
  and digits only; so where every room's code is of that kind, a string with any
  other character (one that differs only in letter case, say) finds no room.
\<close>

theorem C10_lookup_exact:
  "((getRoomByCode db c = None) = (\<forall>room \<in> set (map snd (rooms db)). code room \<noteq> c))
   \<and> (getRoomByCode db c = Some (found, q) \<longrightarrow> code found = c)
   \<and> ((\<forall>room \<in> set (map snd (rooms db)). code room \<noteq> c) \<longrightarrow>
        joinRoom db c name newPid = Inl Room_not_found)
   \<and> (list_all (\<lambda>r. 0 \<le> r \<and> r < 1) draws \<longrightarrow>
        list_all upper_or_digit (generateRoomCode draws))
   \<and> ((\<forall>room \<in> set (map snd (rooms db)). list_all upper_or_digit (code room)) \<and>
        \<not> list_all upper_or_digit c \<longrightarrow>
        getRoomByCode db c = None \<and> joinRoom db c name newPid = Inl Room_not_found)"
proof (intro conjI impI)
  show "(getRoomByCode db c = None) = (\<forall>room \<in> set (map snd (rooms db)). code room \<noteq> c)"
    by (rule getRoomByCode_None)
next
  assume "getRoomByCode db c = Some (found, q)"
  then show "code found = c" by (rule getRoomByCode_Some)
next
  assume "\<forall>room \<in> set (map snd (rooms db)). code room \<noteq> c"
  then show "joinRoom db c name newPid = Inl Room_not_found" by (rule joinRoom_not_found)
next
  assume "list_all (\<lambda>r. 0 \<le> r \<and> r < 1) draws"
  then show "list_all upper_or_digit (generateRoomCode draws)"
    by (rule generateRoomCode_upper_or_digit)
next
  assume a: "(\<forall>room \<in> set (map snd (rooms db)). list_all upper_or_digit (code room)) \<and>
        \<not> list_all upper_or_digit c"
  then have d: "\<forall>room \<in> set (map snd (rooms db)). code room \<noteq> c"
    using codes_differ by blast
  then show "getRoomByCode db c = None" by (simp only: getRoomByCode_None)
  from d show "joinRoom db c name newPid = Inl Room_not_found" by (rule joinRoom_not_found)
qed

lemma ex_lookup:
  "getRoomByCode (ex_db (ex_room lobby (- 1) [] [])) ''ABC234''
     = Some (ex_room lobby (- 1) [] [], Some ex_quiz)"
  "generateRoomCode [0, 1 / 32, 1 / 16, 3 / 4, 7 / 8, 31 / 32] = ''ABC269''"
  "list_all (\<lambda>r. 0 \<le> r \<and> r < 1) [0, 1 / 32, 1 / 16, 3 / 4, 7 / 8, 31 / 32 :: rat]"
  "list_all upper_or_digit ''ABC234''" "\<not> list_all upper_or_digit ''abc234''"
  "map (code \<circ> snd) (rooms (ex_db (ex_room lobby (- 1) [] []))) = [''ABC234'']"
  by code_simp+

text \<open>
  Claim C10 at the sample room, whose code is ABC234: the code itself finds the room,
  the lower-case spelling finds none and cannot be joined.
\<close>

theorem C10_lookup_exact_witness:
  "getRoomByCode (ex_db (ex_room lobby (- 1) [] [])) ''ABC234''
     = Some (ex_room lobby (- 1) [] [], Some ex_quiz)
   \<and> map (code \<circ> snd) (rooms (ex_db (ex_room lobby (- 1) [] []))) = [''ABC234'']
   \<and> list_all upper_or_digit ''ABC234''
   \<and> \<not> list_all upper_or_digit ''abc234''
   \<and> getRoomByCode (ex_db (ex_room lobby (- 1) [] [])) ''abc234'' = None
   \<and> joinRoom (ex_db (ex_room lobby (- 1) [] [])) ''abc234'' ''Bob'' ''p_2'' = Inl Room_not_found
   \<and> list_all (\<lambda>r. 0 \<le> r \<and> r < 1) [0, 1 / 32, 1 / 16, 3 / 4, 7 / 8, 31 / 32 :: rat]
   \<and> list_all upper_or_digit (generateRoomCode [0, 1 / 32, 1 / 16, 3 / 4, 7 / 8, 31 / 32])"
proof -
  let ?db = "ex_db (ex_room lobby (- 1) [] [])"
  have codes: "\<forall>room \<in> set (map snd (rooms ?db)). list_all upper_or_digit (code room)"
    using ex_lookup(4,6) by (simp add: ex_db_def)
  have diff: "\<forall>room \<in> set (map snd (rooms ?db)). code room \<noteq> ''abc234''"
    by (simp add: ex_db_def ex_room_def)
  note inst = C10_lookup_exact [of ?db "''abc234''" "ex_room lobby (- 1) [] []" "Some ex_quiz"
      "''Bob''" "''p_2''" "[0, 1 / 32, 1 / 16, 3 / 4, 7 / 8, 31 / 32]"]
  show ?thesis using inst codes diff ex_lookup(1,3,4,5,6) by blast
qed

section \<open>The sample room\<close>

lemma ex_db_lookup:
  "map_of (rooms (ex_db room)) ''room_1'' = Some room"
  "map_of (rooms (ex_db room)) ''room_2'' = None"
  "map_of (quizzes (ex_db room)) ''quiz_1'' = Some ex_quiz"
  by (simp_all add: ex_db_def)

lemma ex_room_fields:
  "quizId (ex_room st i ps ans) = ''quiz_1''" "status (ex_room st i ps ans) = st"
  "currentQuestionIndex (ex_room st i ps ans) = i" "participants (ex_room st i ps ans) = ps"
  "answers (ex_room st i ps ans) = ans"
  by (simp_all add: ex_room_def)


section \<open>Starting and advancing a quiz\<close>



lemma startQuiz_inherited:
  "map_of (rooms db) r = None \<Longrightarrow> r \<in> set proto_keys \<Longrightarrow> startQuiz db r = Inl TypeError"
  by (simp add: startQuiz_def js_prop_def)

lemma goToNextQuestion_inherited:
  "map_of (rooms db) r = None \<Longrightarrow> r \<in> set proto_keys \<Longrightarrow>
   goToNextQuestion db r = Inl TypeError"
  by (simp add: goToNextQuestion_def js_prop_def)

lemma startQuiz_present:
  "map_of (rooms db) r = Some room \<Longrightarrow>
   \<exists>db'. startQuiz db r = Inr db' \<and>
     map_of (rooms db') r = Some (room\<lparr>status := running, currentQuestionIndex := 0\<rparr>)"
  by (simp add: startQuiz_def js_prop_def Let_def update_conv')






section \<open>Submitting answers\<close>




lemma submitAnswer_inherited_question:
  assumes "map_of (rooms db) r = Some room"
    and "map_of (quizzes db) (quizId room) = Some quiz"
    and "find (\<lambda>q. qid q = qi) (questions quiz) = Some question"
    and "qi \<in> set proto_keys" and "map_of (answers room) qi = None"
  shows "submitAnswer db r pa qi v t now = Inl TypeError"
  using assms by (simp add: submitAnswer_def js_prop_def Let_def)







section \<open>The lifecycle of a room\<close>

lemma rank_le_finished: "rank s \<le> 2"
  by (cases s) simp_all

lemma createRoom_lobby:
  "createRoom db q i c n = Inr (room, db') \<Longrightarrow>
   status room = lobby \<and> currentQuestionIndex room = - 1 \<and> participants room = [] \<and>
   answers room = [] \<and> map_of (rooms db') i = Some room"
  by (auto simp: createRoom_def js_prop_def Let_def update_conv' split: option.splits if_splits)

lemma step_status_mono:
  assumes "start_guarded db op" and "map_of (rooms db) r = Some room"
  shows "\<exists>room'. map_of (rooms (step db op)) r = Some room' \<and>
           rank (status room) \<le> rank (status room')"
proof (cases op)
  case (CreateQuiz ttl qs i n)
  then show ?thesis using assms(2) by (simp add: createQuiz_def Let_def)
next
  case (CreateRoom q i c n)
  then have "i \<noteq> r" using assms by auto
  then show ?thesis using CreateRoom assms(2)
    by (simp add: createRoom_def js_prop_def Let_def update_conv' split: option.splits)
next
  case (JoinRoom c name i)
  then show ?thesis using assms(2)
    by (auto simp: joinRoom_def Let_def update_conv' split: option.splits)
next
  case (StartQuiz r')
  then show ?thesis using assms
    by (auto simp: startQuiz_def js_prop_def Let_def update_conv' split: option.splits)
next
  case (GoToNextQuestion r')
  then show ?thesis using assms(2)
    by (auto simp: goToNextQuestion_def js_prop_def Let_def update_conv' rank_le_finished split: option.splits)
next
  case (FinishQuiz r')
  then show ?thesis using assms(2)
    by (auto simp: finishQuiz_def js_prop_def Let_def update_conv' rank_le_finished split: option.splits)
next
  case (SubmitAnswer r' p q v t n)
  then show ?thesis using assms(2)
    by (auto simp: submitAnswer_def js_prop_def Let_def update_conv' split: option.splits)
next
  case (OnRoomUpdate r' cb)
  then show ?thesis using assms(2) by (simp add: onRoomUpdate_fields)
qed

lemma run_status_mono:
  "along start_guarded db ops \<Longrightarrow> map_of (rooms db) r = Some room \<Longrightarrow>
   \<exists>room'. map_of (rooms (foldl step db ops)) r = Some room' \<and>
     rank (status room) \<le> rank (status room')"
proof (induction ops arbitrary: db room)
  case Nil
  then show ?case by simp
next
  case (Cons op ops)
  from Cons.prems have a: "start_guarded db op"
    and b: "along start_guarded (step db op) ops"
    by simp_all
  from step_status_mono [OF a Cons.prems(2)]
  obtain room1 where r1: "map_of (rooms (step db op)) r = Some room1"
    and le1: "rank (status room) \<le> rank (status room1)" by blast
  from Cons.IH [OF b r1]
  obtain room' where "map_of (rooms (foldl step (step db op) ops)) r = Some room'"
    and "rank (status room1) \<le> rank (status room')" by blast
  with le1 show ?case by auto
qed

text \<open>
  Claim C2, as the code has it. The claim says that the status never moves backward
  and that nothing changes a finished room. The sample room, finished by
  \<open>finishQuiz\<close> after the calls of \<open>ex_setup\<close>, is put back to running at index 0 by
  \<open>startQuiz\<close>, which does not read the status; and \<open>joinRoom\<close> adds Bob to the
  participants of the finished room.
\<close>

theorem C2_counterexample:
  "foldl step db0 (ex_setup @ [FinishQuiz ''room_1''])
     = ex_db (ex_room finished 0 [ex_ann 0 []] [])
   \<and> startQuiz (ex_db (ex_room finished 0 [ex_ann 0 []] [])) ''room_1''
     = Inr (ex_db (ex_room running 0 [ex_ann 0 []] []))
   \<and> joinRoom (ex_db (ex_room finished 0 [ex_ann 0 []] [])) ''ABC234'' ''Bob'' ''p_2''
     = Inr ((ex_room finished 0
               [ex_ann 0 [], ex_bob] [],
             Some ex_quiz,
             ex_bob),
            ex_db (ex_room finished 0
               [ex_ann 0 [], ex_bob] []))"
  by code_simp

text \<open>
  Claim C2 (amended): a room is created in the lobby with index -1. Along every
  sequence of operations (createQuiz, createRoom, joinRoom, startQuiz,
  goToNextQuestion, finishQuiz, submitAnswer, onRoomUpdate) in which \<open>startQuiz\<close> is
  called for rooms in the lobby only and \<open>createRoom\<close> gets a new room id, every
  existing room stays in the table and its status never moves backward along
  lobby, running, finished; so a finished room stays finished. \<open>startQuiz\<close> itself
  sets status running and index 0 whatever the status was, finished included.
\<close>

theorem C2_status_forward_when_start_guarded:
  "(createRoom db q i c n = Inr (new, db1) \<longrightarrow>
      status new = lobby \<and> currentQuestionIndex new = - 1 \<and> map_of (rooms db1) i = Some new)
   \<and> (along start_guarded db ops \<and> map_of (rooms db) r = Some room \<longrightarrow>
        (\<exists>room'. map_of (rooms (foldl step db ops)) r = Some room' \<and>
           rank (status room) \<le> rank (status room')))
   \<and> (map_of (rooms db) r = Some room \<longrightarrow>
        (\<exists>db'. startQuiz db r = Inr db' \<and>
           map_of (rooms db') r = Some (room\<lparr>status := running, currentQuestionIndex := 0\<rparr>)))"
  using createRoom_lobby [of db q i c n new db1] run_status_mono [of db ops r room]
    startQuiz_present [of db r room]
  by blast

lemma ex_play_run:
  "foldl step (ex_db (ex_room lobby (- 1) [] [])) (drop 2 ex_setup @ ex_play)
     = ex_db (ex_room finished 2 [ex_ann 15 [''q1'', ''q2''], ex_bob]
                [(''q1'', [ex_answer ''p_1'' 2000]), (''q2'', [ex_answer2])])"
  "along start_guarded (ex_db (ex_room lobby (- 1) [] [])) (drop 2 ex_setup @ ex_play)"
  by code_simp+

lemma ex_create:
  "createRoom \<lparr>quizzes = [(''quiz_1'', ex_quiz)], rooms = [], listeners = [], delivered = []\<rparr>
       ''quiz_1'' ''room_1'' ''ABC234'' 1001
     = Inr (ex_room lobby (- 1) [] [], ex_db (ex_room lobby (- 1) [] []))"
  by code_simp

text \<open>
  The amended C2 at the sample: the room is created in the lobby, and the session
  (Ann joins, the quiz is started, \<open>ex_play\<close>) takes it to finished.
\<close>

theorem C2_status_forward_when_start_guarded_witness:
  "createRoom \<lparr>quizzes = [(''quiz_1'', ex_quiz)], rooms = [], listeners = [], delivered = []\<rparr>
       ''quiz_1'' ''room_1'' ''ABC234'' 1001
     = Inr (ex_room lobby (- 1) [] [], ex_db (ex_room lobby (- 1) [] []))
   \<and> status (ex_room lobby (- 1) [] []) = lobby
   \<and> currentQuestionIndex (ex_room lobby (- 1) [] []) = - 1
   \<and> along start_guarded (ex_db (ex_room lobby (- 1) [] [])) (drop 2 ex_setup @ ex_play)
   \<and> map_of (rooms (ex_db (ex_room lobby (- 1) [] []))) ''room_1''
       = Some (ex_room lobby (- 1) [] [])
   \<and> (\<exists>room'. map_of (rooms (foldl step (ex_db (ex_room lobby (- 1) [] []))
                                 (drop 2 ex_setup @ ex_play))) ''room_1'' = Some room' \<and>
         rank (status (ex_room lobby (- 1) [] [])) \<le> rank (status room') \<and>
         status room' = finished)
   \<and> (\<exists>db'. startQuiz (ex_db (ex_room lobby (- 1) [] [])) ''room_1'' = Inr db' \<and>
         map_of (rooms db') ''room_1''
           = Some ((ex_room lobby (- 1) [] [])\<lparr>status := running, currentQuestionIndex := 0\<rparr>))"
proof -
  let ?db = "ex_db (ex_room lobby (- 1) [] [])"
  let ?ops = "drop 2 ex_setup @ ex_play"
  have h: "map_of (rooms ?db) ''room_1'' = Some (ex_room lobby (- 1) [] [])"
    by (rule ex_db_lookup)
  have fin: "map_of (rooms (foldl step ?db ?ops)) ''room_1'' = Some room' \<Longrightarrow>
             status room' = finished" for room'
    unfolding ex_play_run(1) by (auto simp: ex_db_lookup ex_room_fields)
  from C2_status_forward_when_start_guarded
         [of "\<lparr>quizzes = [(''quiz_1'', ex_quiz)], rooms = [], listeners = [], delivered = []\<rparr>"
             "''quiz_1''" "''room_1''" "''ABC234''" 1001 "ex_room lobby (- 1) [] []"
             ?db ?ops "''room_1''" "ex_room lobby (- 1) [] []"]
  have 1: "status (ex_room lobby (- 1) [] []) = lobby
          \<and> currentQuestionIndex (ex_room lobby (- 1) [] []) = - 1"
    using ex_create by blast
  from C2_status_forward_when_start_guarded
         [of ?db "''quiz_1''" "''room_2''" "''XYZ789''" 3000 _ _ ?ops "''room_1''"
             "ex_room lobby (- 1) [] []"]
  have 2: "(\<exists>room'. map_of (rooms (foldl step ?db ?ops)) ''room_1'' = Some room' \<and>
              rank (status (ex_room lobby (- 1) [] [])) \<le> rank (status room'))
          \<and> (\<exists>db'. startQuiz ?db ''room_1'' = Inr db' \<and>
                map_of (rooms db') ''room_1''
                  = Some ((ex_room lobby (- 1) [] [])
                            \<lparr>status := running, currentQuestionIndex := 0\<rparr>))"
    using h ex_play_run(2) by blast
  show ?thesis using 1 2 h ex_play_run(2) ex_create fin by blast
qed

section \<open>Scores and awarded points\<close>

lemma sum_answers_append:
  "sum_list (map f (filter P (concat (map snd
       (AList.update q ((case map_of al q of None \<Rightarrow> [] | Some xs \<Rightarrow> xs) @ [a]) al)))))
   = sum_list (map f (filter P (concat (map snd al)))) + (if P a then f a else (0::rat))"
  by (induction al) auto

lemma awarded_append:
  "awarded (room\<lparr>answers := AList.update q (answers_for room q @ [a]) (answers room)\<rparr>) i
   = awarded room i + (if participantId a = i then pointsAwarded a else 0)"
  unfolding awarded_def all_answers_def answers_for_def
  by (simp add: sum_answers_append)

lemma awarded_participants [simp]:
  "awarded (room\<lparr>participants := ps\<rparr>) i = awarded room i"
  by (simp add: awarded_def all_answers_def)

lemma awarded_fresh:
  "i \<notin> set (map participantId (all_answers room)) \<Longrightarrow> awarded room i = 0"
proof -
  assume "i \<notin> set (map participantId (all_answers room))"
  then have "filter (\<lambda>a. participantId a = i) (all_answers room) = []"
    by (auto simp: filter_empty_conv)
  then show ?thesis by (simp add: awarded_def)
qed

lemma update_first_pids:
  "map pid (update_first (\<lambda>p. pid p = pa) (credit q pts) ps) = map pid ps"
  by (induction ps) (auto simp: credit_def)

lemma update_first_scores:
  "distinct (map pid ps) \<Longrightarrow> \<forall>p \<in> set ps. score p = g (pid p) \<Longrightarrow>
   \<forall>p' \<in> set (update_first (\<lambda>p. pid p = pa) (credit q pts) ps).
     score p' = g (pid p') + (if pa = pid p' then pts else 0)"
proof (induction ps)
  case Nil
  then show ?case by simp
next
  case (Cons x xs)
  show ?case
  proof (cases "pid x = pa")
    case True
    then have "\<forall>p \<in> set xs. pid p \<noteq> pa" using Cons.prems(1) by (force simp: image_iff)
    then show ?thesis using True Cons.prems(2) by (auto simp: credit_def)
  next
    case False
    then show ?thesis using Cons by auto
  qed
qed

lemma score_inv_submit:
  assumes "score_inv room"
  shows "score_inv (room\<lparr>answers := AList.update q (answers_for room q @ [a]) (answers room),
                         participants := update_first (\<lambda>p. pid p = participantId a)
                                           (credit q (pointsAwarded a)) (participants room)\<rparr>)"
proof -
  let ?room1 = "room\<lparr>answers := AList.update q (answers_for room q @ [a]) (answers room)\<rparr>"
  let ?ps = "update_first (\<lambda>p. pid p = participantId a) (credit q (pointsAwarded a))
               (participants room)"
  from assms have d: "distinct (map pid (participants room))"
    and s: "\<forall>p \<in> set (participants room). score p = awarded room (pid p)"
    by (simp_all add: score_inv_def list_all_iff)
  from update_first_scores [OF d s, of "participantId a" q "pointsAwarded a"]
  have "\<forall>p' \<in> set ?ps. score p' = awarded ?room1 (pid p')"
    by (simp add: awarded_append)
  moreover have "distinct (map pid ?ps)" using d by (simp add: update_first_pids)
  ultimately have "score_inv (?room1\<lparr>participants := ?ps\<rparr>)"
    by (simp add: score_inv_def list_all_iff)
  then show ?thesis by simp
qed

lemma score_inv_join:
  assumes "score_inv room" and "i \<notin> set (map pid (participants room))"
    and "i \<notin> set (map participantId (all_answers room))"
  shows "score_inv (room\<lparr>participants := participants room @
            [\<lparr>pid = i, pname = name, score = 0, answeredQuestionIds = []\<rparr>]\<rparr>)"
  using assms by (simp add: score_inv_def list_all_iff awarded_fresh)

lemma score_inv_cong:
  "score_inv room \<Longrightarrow> participants room' = participants room \<Longrightarrow>
   answers room' = answers room \<Longrightarrow> score_inv room'"
  by (simp add: score_inv_def awarded_def all_answers_def)

lemma db_inv_update:
  "db_inv db \<Longrightarrow> score_inv room' \<Longrightarrow> rooms db' = AList.update k room' (rooms db) \<Longrightarrow> db_inv db'"
  by (simp add: db_inv_def update_conv')

lemma db_inv_same: "db_inv db \<Longrightarrow> rooms db' = rooms db \<Longrightarrow> db_inv db'"
  by (simp add: db_inv_def)

lemma db_inv_room: "db_inv db \<Longrightarrow> map_of (rooms db) r = Some room \<Longrightarrow> score_inv room"
  by (auto simp: db_inv_def)

lemma fresh_pid_room:
  "fresh_pid db i \<Longrightarrow> map_of (rooms db) r = Some room \<Longrightarrow>
   i \<notin> set (map pid (participants room)) \<and> i \<notin> set (map participantId (all_answers room))"
proof -
  assume f: "fresh_pid db i" and m: "map_of (rooms db) r = Some room"
  from m have "room \<in> set (map snd (rooms db))"
    by (force dest: map_of_SomeD)
  with f show ?thesis unfolding fresh_pid_def list_all_iff by blast
qed

lemma step_db_inv:
  assumes "db_inv db" and "new_pid_fresh db op"
  shows "db_inv (step db op)"
proof (cases op)
  case (CreateQuiz ttl qs i n)
  then show ?thesis using assms(1) by (auto intro: db_inv_same simp: createQuiz_def Let_def)
next
  case (CreateRoom q i c n)
  have e: "score_inv \<lparr>rid = i, code = c, quizId = q, status = lobby,
             currentQuestionIndex = - 1, participants = [], answers = [], createdAt = n\<rparr>"
    by (simp add: score_inv_def)
  show ?thesis
  proof (cases "js_prop (quizzes db) q = Missing")
    case True
    then show ?thesis using CreateRoom assms(1) by (simp add: createRoom_def)
  next
    case False
    then have "rooms (step db op) =
        AList.update i \<lparr>rid = i, code = c, quizId = q, status = lobby,
             currentQuestionIndex = - 1, participants = [], answers = [], createdAt = n\<rparr>
          (rooms db)"
      using CreateRoom by (cases "js_prop (quizzes db) q") (simp_all add: createRoom_def Let_def)
    then show ?thesis by (rule db_inv_update [OF assms(1) e])
  qed
next
  case (JoinRoom c name i)
  show ?thesis
  proof (cases "joinRoom db c name i")
    case (Inl e)
    then show ?thesis using JoinRoom assms(1) by simp
  next
    case (Inr res)
    then obtain snap room where g: "getRoomByCode db c = Some snap"
      and m: "map_of (rooms db) (rid (fst snap)) = Some room"
      by (auto simp: joinRoom_def Let_def split: option.splits)
    from assms(2) JoinRoom have "fresh_pid db i" by simp
    from fresh_pid_room [OF this m] db_inv_room [OF assms(1) m]
    have "score_inv (room\<lparr>participants := participants room @
            [\<lparr>pid = i, pname = name, score = 0, answeredQuestionIds = []\<rparr>]\<rparr>)"
      by (simp add: score_inv_join)
    from db_inv_update [OF assms(1) this]
    show ?thesis using JoinRoom g m by (simp add: joinRoom_def Let_def)
  qed
next
  case (StartQuiz r)
  show ?thesis
  proof (cases "map_of (rooms db) r")
    case None
    then show ?thesis using StartQuiz assms(1) by (simp add: startQuiz_def js_prop_def)
  next
    case (Some room)
    have "score_inv (room\<lparr>status := running, currentQuestionIndex := 0\<rparr>)"
      by (rule score_inv_cong [OF db_inv_room [OF assms(1) Some]]) simp_all
    from db_inv_update [OF assms(1) this]
    show ?thesis using StartQuiz Some by (simp add: startQuiz_def js_prop_def Let_def)
  qed
next
  case (GoToNextQuestion r)
  show ?thesis
  proof (cases "goToNextQuestion db r")
    case (Inl e)
    then show ?thesis using GoToNextQuestion assms(1) by simp
  next
    case (Inr db')
    then obtain room quiz where m: "map_of (rooms db) r = Some room"
      and q: "map_of (quizzes db) (quizId room) = Some quiz"
      by (auto simp: goToNextQuestion_def js_prop_def split: option.splits if_splits)
    let ?room' = "if currentQuestionIndex room < int (length (questions quiz)) - 1
                  then room\<lparr>currentQuestionIndex := currentQuestionIndex room + 1\<rparr>
                  else room\<lparr>status := finished\<rparr>"
    have "score_inv ?room'"
      by (rule score_inv_cong [OF db_inv_room [OF assms(1) m]]) simp_all
    from db_inv_update [OF assms(1) this]
    show ?thesis using GoToNextQuestion m q by (simp add: goToNextQuestion_def js_prop_def Let_def)
  qed
next
  case (FinishQuiz r)
  show ?thesis
  proof (cases "map_of (rooms db) r")
    case None
    then show ?thesis using FinishQuiz assms(1) by (simp add: finishQuiz_def js_prop_def)
  next
    case (Some room)
    have "score_inv (room\<lparr>status := finished\<rparr>)"
      by (rule score_inv_cong [OF db_inv_room [OF assms(1) Some]]) simp_all
    from db_inv_update [OF assms(1) this]
    show ?thesis using FinishQuiz Some by (simp add: finishQuiz_def js_prop_def Let_def)
  qed
next
  case (SubmitAnswer r pa qi v t n)
  show ?thesis
  proof (cases "submitAnswer db r pa qi v t n")
    case (Inl e)
    then show ?thesis using SubmitAnswer assms(1) by simp
  next
    case (Inr res)
    then obtain room quiz question where m: "map_of (rooms db) r = Some room"
      and q: "map_of (quizzes db) (quizId room) = Some quiz"
      and f: "find (\<lambda>q. qid q = qi) (questions quiz) = Some question"
      by (auto simp: submitAnswer_def js_prop_def Let_def split: option.splits if_splits)
    let ?a = "\<lparr>questionId = qi, participantId = pa, submitted = v,
               isCorrect = isAnswerCorrect question v, timeTakenSec = t, submittedAt = n,
               pointsAwarded = calculatePoints question (isAnswerCorrect question v) t\<rparr>"
    from score_inv_submit [OF db_inv_room [OF assms(1) m], where q = qi and a = ?a]
    have "score_inv (room\<lparr>answers := AList.update qi (answers_for room qi @ [?a]) (answers room),
                         participants := update_first (\<lambda>p. pid p = pa)
                            (credit qi (calculatePoints question (isAnswerCorrect question v) t))
                            (participants room)\<rparr>)"
      by simp
    note inv = db_inv_update [OF assms(1) this]
    show ?thesis
    proof (cases "js_prop (answers room) qi")
      case (Own xs)
      then show ?thesis using SubmitAnswer m q f inv
        by (simp add: submitAnswer_def js_prop_Own Let_def)
    next
      case Inherited
      then show ?thesis using SubmitAnswer m q f assms(1)
        by (simp add: submitAnswer_def js_prop_Own Let_def)
    next
      case Missing
      then show ?thesis using SubmitAnswer m q f inv
        by (simp add: submitAnswer_def js_prop_Own Let_def)
    qed
  qed
next
  case (OnRoomUpdate r cb)
  then show ?thesis using assms(1) by (auto intro: db_inv_same simp: onRoomUpdate_fields)
qed

lemma run_db_inv:
  "db_inv db \<Longrightarrow> along new_pid_fresh db ops \<Longrightarrow> db_inv (foldl step db ops)"
  by (induction ops arbitrary: db) (simp_all add: step_db_inv)

lemma db_inv_db0: "db_inv db0"
  by (simp add: db_inv_def db0_def)

text \<open>
  Claim C6: in every state the data source reaches from the empty database, by any
  sequence of its operations in which \<open>generateId\<close> hands a new identifier to each
  participant who joins, every participant of every room has as score the sum of \<open>pointsAwarded\<close> over the
  answers recorded in the room under the participant's id.
\<close>

theorem C6_score_is_sum_of_awarded:
  "along new_pid_fresh db0 ops \<Longrightarrow> map_of (rooms (foldl step db0 ops)) r = Some room \<Longrightarrow>
   p \<in> set (participants room) \<Longrightarrow> score p = awarded room (pid p)"
proof -
  assume "along new_pid_fresh db0 ops" and m: "map_of (rooms (foldl step db0 ops)) r = Some room"
    and p: "p \<in> set (participants room)"
  then have "db_inv (foldl step db0 ops)" by (simp add: run_db_inv db_inv_db0)
  then have "score_inv room" using m by (rule db_inv_room)
  then show ?thesis using p by (simp add: score_inv_def list_all_iff)
qed

lemma ex_session:
  "along new_pid_fresh db0 (ex_setup @ ex_play)"
  "foldl step db0 (ex_setup @ ex_play)
     = ex_db (ex_room finished 2 [ex_ann 15 [''q1'', ''q2''], ex_bob]
                [(''q1'', [ex_answer ''p_1'' 2000]), (''q2'', [ex_answer2])])"
  "awarded (ex_room finished 2 [ex_ann 15 [''q1'', ''q2''], ex_bob]
              [(''q1'', [ex_answer ''p_1'' 2000]), (''q2'', [ex_answer2])]) ''p_1'' = 15"
  by code_simp+

text \<open>
  Claim C6 at the end of the sample session: Ann holds 15 points, 10 for q1 and 5
  for q2 answered at half of the time limit.
\<close>

theorem C6_score_is_sum_of_awarded_witness:
  "along new_pid_fresh db0 (ex_setup @ ex_play)
   \<and> map_of (rooms (foldl step db0 (ex_setup @ ex_play))) ''room_1''
       = Some (ex_room finished 2 [ex_ann 15 [''q1'', ''q2''], ex_bob]
                 [(''q1'', [ex_answer ''p_1'' 2000]), (''q2'', [ex_answer2])])
   \<and> ex_ann 15 [''q1'', ''q2'']
       \<in> set (participants (ex_room finished 2 [ex_ann 15 [''q1'', ''q2''], ex_bob]
                 [(''q1'', [ex_answer ''p_1'' 2000]), (''q2'', [ex_answer2])]))
   \<and> score (ex_ann 15 [''q1'', ''q2'']) = 15
   \<and> awarded (ex_room finished 2 [ex_ann 15 [''q1'', ''q2''], ex_bob]
                 [(''q1'', [ex_answer ''p_1'' 2000]), (''q2'', [ex_answer2])])
         (pid (ex_ann 15 [''q1'', ''q2''])) = 15"
proof -
  let ?room = "ex_room finished 2 [ex_ann 15 [''q1'', ''q2''], ex_bob]
                 [(''q1'', [ex_answer ''p_1'' 2000]), (''q2'', [ex_answer2])]"
  have m: "map_of (rooms (foldl step db0 (ex_setup @ ex_play))) ''room_1'' = Some ?room"
    by (simp only: ex_session(2) ex_db_lookup)
  have p: "ex_ann 15 [''q1'', ''q2''] \<in> set (participants ?room)"
    by (simp add: ex_room_fields)
  have s: "score (ex_ann 15 [''q1'', ''q2'']) = 15" by (simp add: ex_ann_def)
  from C6_score_is_sum_of_awarded [OF ex_session(1) m p]
  show ?thesis using ex_session(1) m p s by simp
qed

end
